theory Spec2Isabelle
  imports Main "HOL-Library.Word" "HOL-Library.Signed_Division"
begin

unbundle bit_operations_syntax

section \<open>Machine integers\<close>

text \<open>
  The program computes with \<^verbatim>\<open>int\<close> and \<^verbatim>\<open>int32_t\<close>, both 32-bit two's complement on
  the supported platforms, and with \<^verbatim>\<open>size_t\<close> (64 bit). They are modelled as words:
  \<open>+\<close>, \<open>-\<close> and \<open>*\<close> wrap, comparisons are the signed ones (\<open><s\<close>, \<open>\<le>s\<close>), and
  \<open>sint\<close> reads the mathematical value. C++ leaves signed overflow undefined; the model
  gives it the two's complement result of the compiled program, and theorems about
  mathematical values carry the range conditions under which nothing overflows.
\<close>

type_synonym int32 = "32 word"
type_synonym size_t = "64 word"

text \<open>C++ \<^verbatim>\<open>/\<close> on \<^verbatim>\<open>int\<close> truncates towards zero.\<close>

definition c_div :: "int32 \<Rightarrow> int32 \<Rightarrow> int32" where
  "c_div a b = word_of_int (sint a sdiv sint b)"

text \<open>\<^verbatim>\<open>std::max(a, b)\<close> is \<^verbatim>\<open>(a < b) ? b : a\<close> and \<^verbatim>\<open>std::min(a, b)\<close> is
  \<^verbatim>\<open>(b < a) ? b : a\<close>, on signed integers.\<close>

definition std_max :: "int32 \<Rightarrow> int32 \<Rightarrow> int32" where
  "std_max a b = (if a <s b then b else a)"

definition std_min :: "int32 \<Rightarrow> int32 \<Rightarrow> int32" where
  "std_min a b = (if b <s a then b else a)"

section \<open>Note model\<close>

datatype Pitch =
  REST | C_NAT | C_SHARP | D_NAT | D_SHARP | E_NAT | F_NAT | F_SHARP
  | G_NAT | G_SHARP | A_NAT | A_SHARP | B_NAT

text \<open>The enumerators are numbered from 0 in declaration order; \<^verbatim>\<open>(int)(pitch)\<close> reads
  that number and \<^verbatim>\<open>(Pitch)(n)\<close> converts back.\<close>

fun pitch_to_int :: "Pitch \<Rightarrow> int32" where
  "pitch_to_int REST = 0"
| "pitch_to_int C_NAT = 1"
| "pitch_to_int C_SHARP = 2"
| "pitch_to_int D_NAT = 3"
| "pitch_to_int D_SHARP = 4"
| "pitch_to_int E_NAT = 5"
| "pitch_to_int F_NAT = 6"
| "pitch_to_int F_SHARP = 7"
| "pitch_to_int G_NAT = 8"
| "pitch_to_int G_SHARP = 9"
| "pitch_to_int A_NAT = 10"
| "pitch_to_int A_SHARP = 11"
| "pitch_to_int B_NAT = 12"

definition pitch_of_nat :: "nat \<Rightarrow> Pitch" where
  "pitch_of_nat n =
     [REST, C_NAT, C_SHARP, D_NAT, D_SHARP, E_NAT, F_NAT, F_SHARP,
      G_NAT, G_SHARP, A_NAT, A_SHARP, B_NAT] ! n"

record Note_View =
  nv_length :: int32
  nv_pitch :: Pitch
  nv_octave :: int32
  nv_speed :: int32

definition NUM_WHITE_NOTES :: size_t where "NUM_WHITE_NOTES = 7"
definition NUM_BLACK_NOTES :: size_t where "NUM_BLACK_NOTES = 5"
definition NUM_NOTES_PER_OCTAVE :: size_t where
  "NUM_NOTES_PER_OCTAVE = NUM_WHITE_NOTES + NUM_BLACK_NOTES"
definition NUM_OCTAVES :: size_t where "NUM_OCTAVES = 8"

definition WHITE_KEY_WIDTH :: int32 where "WHITE_KEY_WIDTH = 150"
definition WHITE_KEY_HEIGHT :: int32 where "WHITE_KEY_HEIGHT = 24"
definition BLACK_KEY_WIDTH :: int32 where "BLACK_KEY_WIDTH = 100"
definition BLACK_KEY_HEIGHT :: int32 where "BLACK_KEY_HEIGHT = 20"
definition TICK_WIDTH :: int32 where "TICK_WIDTH = 3"
definition TICKS_PER_STEP :: int32 where "TICKS_PER_STEP = 12"

section \<open>The playback engine \<^verbatim>\<open>IT_Module\<close>\<close>

record IT_Module =
  current_tick :: int32
  m_playing :: bool
  m_paused :: bool
  m_speed :: int32

definition IT_Module_init :: IT_Module where
  "IT_Module_init = \<lparr>current_tick = 0, m_playing = False, m_paused = False, m_speed = 1\<rparr>"

definition ready :: "IT_Module \<Rightarrow> bool" where
  "ready m = True"

definition playing :: "IT_Module \<Rightarrow> bool" where
  "playing m = m_playing m"

definition paused :: "IT_Module \<Rightarrow> bool" where
  "paused m = m_paused m"

definition stopped :: "IT_Module \<Rightarrow> bool" where
  "stopped m = (\<not> playing m \<and> \<not> paused m)"

text \<open>\<^verbatim>\<open>start\<close>, \<^verbatim>\<open>stop\<close> and \<^verbatim>\<open>pause\<close> always return \<^verbatim>\<open>true\<close>; the model returns the
  updated module.\<close>

definition start :: "IT_Module \<Rightarrow> IT_Module" where
  "start m = m\<lparr>m_paused := False, m_playing := True\<rparr>"

definition stop :: "IT_Module \<Rightarrow> IT_Module" where
  "stop m = m\<lparr>m_paused := False, m_playing := False, current_tick := 0\<rparr>"

definition pause :: "IT_Module \<Rightarrow> IT_Module" where
  "pause m = m\<lparr>m_paused := True, m_playing := False\<rparr>"

definition set_speed :: "int32 \<Rightarrow> IT_Module \<Rightarrow> IT_Module" where
  "set_speed s m = m\<lparr>m_speed := s\<rparr>"

definition play :: "IT_Module \<Rightarrow> IT_Module" where
  "play m =
     (if \<not> ready m \<or> \<not> playing m then m
      else
        let count = (1 :: size_t);
            m1 = m\<lparr>current_tick := current_tick m + m_speed m\<rparr>;
            m2 = (if 3072 \<le>s current_tick m1 then m1\<lparr>current_tick := 0\<rparr> else m1)
        in if count = 0 then stop m2 else m2)"

text \<open>The calls a client can make on a module, and a sequence of them run from a state.\<close>

datatype module_call = Start | Stop | Pause | Play | Speed int32

fun exec :: "IT_Module \<Rightarrow> module_call \<Rightarrow> IT_Module" where
  "exec m Start = start m"
| "exec m Stop = stop m"
| "exec m Pause = pause m"
| "exec m Play = play m"
| "exec m (Speed s) = set_speed s m"

definition run :: "module_call list \<Rightarrow> IT_Module" where
  "run cs = foldl exec IT_Module_init cs"

section \<open>Synthetic note generation\<close>

text \<open>
  \<^verbatim>\<open>rand()\<close> returns a value between 0 and \<^verbatim>\<open>RAND_MAX\<close>; the stream of its results
  is a function from the number of the call to a natural number, and the loop threads
  the number of the next call. One iteration of \<^verbatim>\<open>build_note_view\<close> draws the speed,
  the length and the pitch, in this order.
\<close>

definition next_note :: "int32 \<Rightarrow> (nat \<Rightarrow> nat) \<Rightarrow> nat \<Rightarrow> Note_View" where
  "next_note channel_number rnd i =
     (let speed = word_of_nat (rnd i mod 4) + 1;
          len = word_of_nat (rnd (i + 1) mod 4) + 1;
          pitch = pitch_of_nat (rnd (i + 2) mod 12 + 1)
      in \<lparr>nv_length = len, nv_pitch = pitch, nv_octave = channel_number, nv_speed = speed\<rparr>)"

function build_note_view_loop ::
  "int32 \<Rightarrow> (nat \<Rightarrow> nat) \<Rightarrow> nat \<Rightarrow> int32 \<Rightarrow> Note_View list \<Rightarrow> Note_View list \<times> nat" where
  "build_note_view_loop channel_number rnd i tick notes =
     (if tick <s 3072 - 16 then
        let note = next_note channel_number rnd i
        in build_note_view_loop channel_number rnd (i + 3)
             (tick + nv_length note * nv_speed note) (notes @ [note])
      else (notes, i))"
  by pat_completeness auto
termination
proof (relation "measure (\<lambda>(c, rnd, i, tick, ns). nat (3056 - sint tick))", goal_cases)
  case 1
  show ?case by simp
next
  case (2 c rnd i tick ns n)
  have small: "sint ((word_of_nat (r mod 4) + 1) :: int32) = int (r mod 4) + 1" for r :: nat
  proof -
    have lt: "r mod 4 < 4" by simp
    have "sint (word_of_int (int (r mod 4)) :: int32) = int (r mod 4)"
      using lt by (simp only: sint_sbintrunc') (simp add: signed_take_bit_int_eq_self)
    then have a: "sint (word_of_nat (r mod 4) :: int32) = int (r mod 4)" by simp
    have "sint ((word_of_nat (r mod 4) + 1) :: int32)
          = signed_take_bit 31 (int (r mod 4) + 1)"
      by (simp add: sint_word_ariths a)
    then show ?thesis using lt by (simp add: signed_take_bit_int_eq_self)
  qed
  have len: "sint (nv_length n) = int (rnd (i + 1) mod 4) + 1"
    and speed: "sint (nv_speed n) = int (rnd i mod 4) + 1"
    using 2(2) by (simp_all add: next_note_def Let_def small)
  have l4: "int (rnd (i + 1) mod 4) < 4" and s4: "int (rnd i mod 4) < 4" by simp_all
  have lo: "1 \<le> sint (nv_length n) * sint (nv_speed n)"
    unfolding len speed by (simp add: algebra_simps)
  have "sint (nv_length n) * sint (nv_speed n) \<le> 4 * 4"
    unfolding len speed using l4 s4 by (intro mult_mono) simp_all
  then have hi: "sint (nv_length n) * sint (nv_speed n) \<le> 16" by simp
  have prod: "sint (nv_length n * nv_speed n) = sint (nv_length n) * sint (nv_speed n)"
    using lo hi by (simp add: sint_word_ariths signed_take_bit_int_eq_self)
  have t: "sint tick < 3056" using 2(1) by (simp add: word_sless_alt)
  have "sint (tick + nv_length n * nv_speed n)
        = sint tick + sint (nv_length n) * sint (nv_speed n)"
    using t lo hi sint_ge [of tick]
    by (simp add: sint_word_ariths prod signed_take_bit_int_eq_self)
  then show ?case using t lo by simp
qed

declare build_note_view_loop.simps [simp del]

definition build_note_view ::
  "int32 \<Rightarrow> (nat \<Rightarrow> nat) \<Rightarrow> nat \<Rightarrow> Note_View list \<Rightarrow> Note_View list \<times> nat" where
  "build_note_view channel_number rnd i notes =
     build_note_view_loop channel_number rnd i 0 notes"

text \<open>The cumulative tick length of a note sequence, as a mathematical integer, and
  what the generator promises of each note of channel \<open>c\<close>.\<close>

definition total_ticks :: "Note_View list \<Rightarrow> int" where
  "total_ticks ns = sum_list (map (\<lambda>n. sint (nv_length n) * sint (nv_speed n)) ns)"

definition generated_note :: "int32 \<Rightarrow> Note_View \<Rightarrow> bool" where
  "generated_note c n =
     (nv_pitch n \<noteq> REST \<and> 1 \<le> sint (nv_length n) \<and> sint (nv_length n) \<le> 4
      \<and> 1 \<le> sint (nv_speed n) \<and> sint (nv_speed n) \<le> 4 \<and> nv_octave n = c)"

definition generated_channel :: "int32 \<Rightarrow> Note_View list \<Rightarrow> bool" where
  "generated_channel c ns =
     (list_all (generated_note c) ns \<and> 3056 \<le> total_ticks ns \<and> total_ticks ns < 3072)"

section \<open>Widgets of the piano roll\<close>

text \<open>
  Of the toolkit's widgets the model keeps what the program computes with: positions,
  sizes, scroll offsets and colours of note boxes. Drawing and redraw requests, the
  colours and sizes of the keyboard keys (\<^verbatim>\<open>update_key_colors\<close>, \<^verbatim>\<open>reset_key_colors\<close>,
  \<^verbatim>\<open>set_key_color\<close>, \<^verbatim>\<open>Piano_Keys::calc_sizes\<close>) and the order of children in the widget
  tree are left out: they only repaint.
\<close>

datatype Fl_Color =
  NOTE_RED | NOTE_BLUE | NOTE_GREEN | NOTE_BROWN
  | NOTE_RED_LIGHT | NOTE_BLUE_LIGHT | NOTE_GREEN_LIGHT | NOTE_BROWN_LIGHT

record Note_Box =
  note_view :: Note_View
  nb_tick :: int32
  nb_x :: int32
  nb_y :: int32
  nb_w :: int32
  nb_h :: int32
  nb_color :: Fl_Color

text \<open>A failed \<^verbatim>\<open>assert\<close> aborts the program; it is the only error of the model.\<close>

datatype error = AssertionFailed

record Piano_Keys =
  keys_x :: int32
  keys_y :: int32
  channel_1_pitch :: Pitch
  channel_1_octave :: int32
  channel_2_pitch :: Pitch
  channel_2_octave :: int32
  channel_3_pitch :: Pitch
  channel_3_octave :: int32
  channel_4_pitch :: Pitch
  channel_4_octave :: int32

definition set_channel_1_pitch :: "Pitch \<Rightarrow> int32 \<Rightarrow> Piano_Keys \<Rightarrow> Piano_Keys" where
  "set_channel_1_pitch p oct ks = ks\<lparr>channel_1_pitch := p, channel_1_octave := oct\<rparr>"

definition set_channel_2_pitch :: "Pitch \<Rightarrow> int32 \<Rightarrow> Piano_Keys \<Rightarrow> Piano_Keys" where
  "set_channel_2_pitch p oct ks = ks\<lparr>channel_2_pitch := p, channel_2_octave := oct\<rparr>"

definition set_channel_3_pitch :: "Pitch \<Rightarrow> int32 \<Rightarrow> Piano_Keys \<Rightarrow> Piano_Keys" where
  "set_channel_3_pitch p oct ks = ks\<lparr>channel_3_pitch := p, channel_3_octave := oct\<rparr>"

definition set_channel_4_pitch :: "Pitch \<Rightarrow> int32 \<Rightarrow> Piano_Keys \<Rightarrow> Piano_Keys" where
  "set_channel_4_pitch p oct ks = ks\<lparr>channel_4_pitch := p, channel_4_octave := oct\<rparr>"

definition set_channel_pitch ::
  "int32 \<Rightarrow> Pitch \<Rightarrow> int32 \<Rightarrow> Piano_Keys \<Rightarrow> error + Piano_Keys" where
  "set_channel_pitch channel_number p oct ks =
     (if \<not> (1 \<le>s channel_number \<and> channel_number \<le>s 4) then Inl AssertionFailed
      else if channel_number = 1 then Inr (set_channel_1_pitch p oct ks)
      else if channel_number = 2 then Inr (set_channel_2_pitch p oct ks)
      else if channel_number = 3 then Inr (set_channel_3_pitch p oct ks)
      else Inr (set_channel_4_pitch p oct ks))"

definition reset_channel_pitches :: "Piano_Keys \<Rightarrow> Piano_Keys" where
  "reset_channel_pitches ks =
     set_channel_4_pitch REST 0 (set_channel_3_pitch REST 0
       (set_channel_2_pitch REST 0 (set_channel_1_pitch REST 0 ks)))"

record Piano_Timeline =
  tl_x :: int32
  tl_y :: int32
  tl_w :: int32
  tl_h :: int32
  keys :: Piano_Keys
  tl_channel_1_notes :: "Note_Box list"
  tl_channel_2_notes :: "Note_Box list"
  tl_channel_3_notes :: "Note_Box list"
  tl_channel_4_notes :: "Note_Box list"
  cursor_tick :: int32

subsection \<open>Sizes\<close>

text \<open>The size getters of \<^verbatim>\<open>Piano_Roll\<close> read no field. A product or quotient with a
  \<^verbatim>\<open>size_t\<close> constant is computed in \<^verbatim>\<open>size_t\<close> and converted back to \<^verbatim>\<open>int\<close>.\<close>

definition white_key_height :: int32 where
  "white_key_height = WHITE_KEY_HEIGHT"

definition black_key_height :: int32 where
  "black_key_height = BLACK_KEY_HEIGHT"

definition octave_height :: int32 where
  "octave_height = ucast ((scast white_key_height :: size_t) * NUM_WHITE_NOTES)"

definition note_row_height :: int32 where
  "note_row_height = ucast ((scast octave_height :: size_t) div NUM_NOTES_PER_OCTAVE)"

definition black_key_offset :: int32 where
  "black_key_offset = c_div note_row_height 2 - c_div black_key_height 2"

definition tick_width :: int32 where
  "tick_width = TICK_WIDTH"

subsection \<open>\<^verbatim>\<open>Piano_Timeline\<close>\<close>

text \<open>\<^verbatim>\<open>set_channel\<close>: the loop over the notes, given the two position lambdas.\<close>

fun set_channel_loop ::
  "(int32 \<Rightarrow> int32) \<Rightarrow> (Pitch \<Rightarrow> int32 \<Rightarrow> int32) \<Rightarrow> Fl_Color \<Rightarrow> int32
   \<Rightarrow> Note_View list \<Rightarrow> Note_Box list \<Rightarrow> Note_Box list" where
  "set_channel_loop tick_to_x_pos pitch_to_y_pos color tick [] channel = channel"
| "set_channel_loop tick_to_x_pos pitch_to_y_pos color tick (note # rest) channel =
     set_channel_loop tick_to_x_pos pitch_to_y_pos color
       (tick + nv_length note * nv_speed note) rest
       (if nv_pitch note \<noteq> REST
        then channel @
          [\<lparr>note_view = note, nb_tick = tick,
            nb_x = tick_to_x_pos tick,
            nb_y = pitch_to_y_pos (nv_pitch note) (nv_octave note),
            nb_w = nv_length note * nv_speed note * tick_width,
            nb_h = note_row_height,
            nb_color = color\<rparr>]
        else channel)"

definition set_channel ::
  "Piano_Timeline \<Rightarrow> Note_Box list \<Rightarrow> int32 \<Rightarrow> Note_View list \<Rightarrow> Fl_Color \<Rightarrow> Note_Box list" where
  "set_channel tln channel channel_number notes color =
     (let tick_to_x_pos = (\<lambda>tick. tl_x tln + WHITE_KEY_WIDTH + tick * tick_width);
          pitch_to_y_pos = (\<lambda>pitch octave.
             tl_y tln + (ucast NUM_OCTAVES - octave) * octave_height
               + (ucast NUM_NOTES_PER_OCTAVE - pitch_to_int pitch) * note_row_height)
      in set_channel_loop tick_to_x_pos pitch_to_y_pos color 0 notes channel)"

definition set_channel_1 :: "Note_View list \<Rightarrow> Piano_Timeline \<Rightarrow> Piano_Timeline" where
  "set_channel_1 notes tln =
     tln\<lparr>tl_channel_1_notes := set_channel tln (tl_channel_1_notes tln) 1 notes NOTE_RED\<rparr>"

definition set_channel_2 :: "Note_View list \<Rightarrow> Piano_Timeline \<Rightarrow> Piano_Timeline" where
  "set_channel_2 notes tln =
     tln\<lparr>tl_channel_2_notes := set_channel tln (tl_channel_2_notes tln) 2 notes NOTE_BLUE\<rparr>"

definition set_channel_3 :: "Note_View list \<Rightarrow> Piano_Timeline \<Rightarrow> Piano_Timeline" where
  "set_channel_3 notes tln =
     tln\<lparr>tl_channel_3_notes := set_channel tln (tl_channel_3_notes tln) 3 notes NOTE_GREEN\<rparr>"

definition set_channel_4 :: "Note_View list \<Rightarrow> Piano_Timeline \<Rightarrow> Piano_Timeline" where
  "set_channel_4 notes tln =
     tln\<lparr>tl_channel_4_notes := set_channel tln (tl_channel_4_notes tln) 4 notes NOTE_BROWN\<rparr>"


definition reset_note_colors :: "Piano_Timeline \<Rightarrow> Piano_Timeline" where
  "reset_note_colors tln =
     tln\<lparr>tl_channel_1_notes := map (\<lambda>note. note\<lparr>nb_color := NOTE_RED\<rparr>) (tl_channel_1_notes tln),
        tl_channel_2_notes := map (\<lambda>note. note\<lparr>nb_color := NOTE_BLUE\<rparr>) (tl_channel_2_notes tln),
        tl_channel_3_notes := map (\<lambda>note. note\<lparr>nb_color := NOTE_GREEN\<rparr>) (tl_channel_3_notes tln),
        tl_channel_4_notes := map (\<lambda>note. note\<lparr>nb_color := NOTE_BROWN\<rparr>) (tl_channel_4_notes tln)\<rparr>"

text \<open>\<^verbatim>\<open>Piano_Timeline::highlight_tick\<close>: the loop leaves at the first note that starts
  after the tick; a failed assertion in \<^verbatim>\<open>set_channel_pitch\<close> ends everything.\<close>

fun highlight_tick_loop ::
  "int32 \<Rightarrow> int32 \<Rightarrow> Fl_Color \<Rightarrow> Piano_Keys \<Rightarrow> Note_Box list
   \<Rightarrow> error + Piano_Keys \<times> Note_Box list" where
  "highlight_tick_loop channel_number tick color ks [] = Inr (ks, [])"
| "highlight_tick_loop channel_number tick color ks (note # rest) =
     (let view = note_view note;
          t_left = nb_tick note;
          t_right = t_left + nv_length view * nv_speed view
      in if tick <s t_left then Inr (ks, note # rest)
         else
           (case (if tick <s t_right
                  then set_channel_pitch channel_number (nv_pitch view) (nv_octave view) ks
                  else Inr ks) of
              Inl e \<Rightarrow> Inl e
            | Inr ks1 \<Rightarrow>
                (case highlight_tick_loop channel_number tick color ks1 rest of
                   Inl e \<Rightarrow> Inl e
                 | Inr (ks2, rest1) \<Rightarrow>
                     Inr (ks2,
                          (if nb_color note \<noteq> color then note\<lparr>nb_color := color\<rparr> else note)
                          # rest1))))"

definition Piano_Timeline_highlight_tick ::
  "Piano_Keys \<Rightarrow> Note_Box list \<Rightarrow> int32 \<Rightarrow> int32 \<Rightarrow> Fl_Color
   \<Rightarrow> error + Piano_Keys \<times> Note_Box list" where
  "Piano_Timeline_highlight_tick ks notes channel_number tick color =
     (case set_channel_pitch channel_number REST 0 ks of
        Inl e \<Rightarrow> Inl e
      | Inr ks1 \<Rightarrow> highlight_tick_loop channel_number tick color ks1 notes)"

definition highlight_channel_1_tick :: "int32 \<Rightarrow> Piano_Timeline \<Rightarrow> error + Piano_Timeline" where
  "highlight_channel_1_tick tick tln =
     (case Piano_Timeline_highlight_tick (keys tln) (tl_channel_1_notes tln) 1 tick NOTE_RED_LIGHT of
        Inl e \<Rightarrow> Inl e
      | Inr (ks, ns) \<Rightarrow> Inr (tln\<lparr>keys := ks, tl_channel_1_notes := ns\<rparr>))"

definition highlight_channel_2_tick :: "int32 \<Rightarrow> Piano_Timeline \<Rightarrow> error + Piano_Timeline" where
  "highlight_channel_2_tick tick tln =
     (case Piano_Timeline_highlight_tick (keys tln) (tl_channel_2_notes tln) 2 tick NOTE_BLUE_LIGHT of
        Inl e \<Rightarrow> Inl e
      | Inr (ks, ns) \<Rightarrow> Inr (tln\<lparr>keys := ks, tl_channel_2_notes := ns\<rparr>))"

definition highlight_channel_3_tick :: "int32 \<Rightarrow> Piano_Timeline \<Rightarrow> error + Piano_Timeline" where
  "highlight_channel_3_tick tick tln =
     (case Piano_Timeline_highlight_tick (keys tln) (tl_channel_3_notes tln) 3 tick NOTE_GREEN_LIGHT of
        Inl e \<Rightarrow> Inl e
      | Inr (ks, ns) \<Rightarrow> Inr (tln\<lparr>keys := ks, tl_channel_3_notes := ns\<rparr>))"

definition highlight_channel_4_tick :: "int32 \<Rightarrow> Piano_Timeline \<Rightarrow> error + Piano_Timeline" where
  "highlight_channel_4_tick tick tln =
     (case Piano_Timeline_highlight_tick (keys tln) (tl_channel_4_notes tln) 4 tick NOTE_BROWN_LIGHT of
        Inl e \<Rightarrow> Inl e
      | Inr (ks, ns) \<Rightarrow> Inr (tln\<lparr>keys := ks, tl_channel_4_notes := ns\<rparr>))"

subsection \<open>\<^verbatim>\<open>Piano_Roll\<close>\<close>

text \<open>
  \<^verbatim>\<open>Piano_Roll\<close> is an \<^verbatim>\<open>Fl_Scroll\<close>: \<open>pr_x\<close>, \<open>pr_y\<close>, \<open>pr_w\<close>, \<open>pr_h\<close> are its
  rectangle, \<open>xposition\<close> and \<open>yposition\<close> its scroll offsets, \<open>scrollbar_w\<close> the width
  of its vertical scrollbar and \<open>hscrollbar_h\<close> the height of its horizontal one.
\<close>

record Piano_Roll =
  pr_x :: int32
  pr_y :: int32
  pr_w :: int32
  pr_h :: int32
  xposition :: int32
  yposition :: int32
  scrollbar_w :: int32
  hscrollbar_h :: int32
  pr_tick :: int32
  following :: bool
  continuous :: bool
  pr_paused :: bool
  ticks_per_step :: int32
  piano_timeline :: Piano_Timeline
  pr_channel_1_notes :: "Note_View list"
  pr_channel_2_notes :: "Note_View list"
  pr_channel_3_notes :: "Note_View list"
  pr_channel_4_notes :: "Note_View list"
  song_length :: int32

text \<open>
  The toolkit's \<^verbatim>\<open>Fl_Scroll::scroll_to(X, Y)\<close> does nothing when both offsets are
  unchanged; otherwise it stores them and moves every child other than the scrollbars by
  the difference. The child is the timeline, a group that moves its own children (the
  keys and the note boxes) along.
\<close>

definition move_box :: "int32 \<Rightarrow> int32 \<Rightarrow> Note_Box \<Rightarrow> Note_Box" where
  "move_box dx dy b = b\<lparr>nb_x := nb_x b + dx, nb_y := nb_y b + dy\<rparr>"

definition move_timeline :: "int32 \<Rightarrow> int32 \<Rightarrow> Piano_Timeline \<Rightarrow> Piano_Timeline" where
  "move_timeline dx dy tln =
     tln\<lparr>tl_x := tl_x tln + dx, tl_y := tl_y tln + dy,
         keys := (keys tln)\<lparr>keys_x := keys_x (keys tln) + dx, keys_y := keys_y (keys tln) + dy\<rparr>,
         tl_channel_1_notes := map (move_box dx dy) (tl_channel_1_notes tln),
         tl_channel_2_notes := map (move_box dx dy) (tl_channel_2_notes tln),
         tl_channel_3_notes := map (move_box dx dy) (tl_channel_3_notes tln),
         tl_channel_4_notes := map (move_box dx dy) (tl_channel_4_notes tln)\<rparr>"

definition scroll_to :: "int32 \<Rightarrow> int32 \<Rightarrow> Piano_Roll \<Rightarrow> Piano_Roll" where
  "scroll_to X Y pr =
     (let dx = xposition pr - X; dy = yposition pr - Y
      in if dx = 0 \<and> dy = 0 then pr
         else pr\<lparr>xposition := X, yposition := Y,
                 piano_timeline := move_timeline dx dy (piano_timeline pr)\<rparr>)"

definition sticky_keys :: "Piano_Roll \<Rightarrow> Piano_Roll" where
  "sticky_keys pr =
     pr\<lparr>piano_timeline :=
          (piano_timeline pr)\<lparr>keys := (keys (piano_timeline pr))\<lparr>keys_x := 0\<rparr>\<rparr>\<rparr>"

definition scroll_x_max :: "Piano_Roll \<Rightarrow> int32" where
  "scroll_x_max pr = tl_w (piano_timeline pr) - (pr_w pr - scrollbar_w pr)"

definition scroll_y_max :: "Piano_Roll \<Rightarrow> int32" where
  "scroll_y_max pr = tl_h (piano_timeline pr) - (pr_h pr - hscrollbar_h pr)"

definition scroll_to_y_max :: "Piano_Roll \<Rightarrow> Piano_Roll" where
  "scroll_to_y_max pr = scroll_to (xposition pr) (scroll_y_max pr) pr"

definition set_continuous_scroll :: "bool \<Rightarrow> Piano_Roll \<Rightarrow> Piano_Roll" where
  "set_continuous_scroll c pr = pr\<lparr>continuous := c\<rparr>"

definition get_last_note_x :: "Piano_Roll \<Rightarrow> int32" where
  "get_last_note_x pr =
     (let get_channel_last_note_x = (\<lambda>notes.
            if length notes > 0 then nb_x (last notes) - tl_x (piano_timeline pr) else 0)
      in std_max (std_max (std_max
           (get_channel_last_note_x (tl_channel_1_notes (piano_timeline pr)))
           (get_channel_last_note_x (tl_channel_2_notes (piano_timeline pr))))
           (get_channel_last_note_x (tl_channel_3_notes (piano_timeline pr))))
           (get_channel_last_note_x (tl_channel_4_notes (piano_timeline pr))))"

definition set_timeline_width :: "Piano_Roll \<Rightarrow> Piano_Roll" where
  "set_timeline_width pr =
     (let pr1 = pr\<lparr>piano_timeline := (piano_timeline pr)
                  \<lparr>tl_w := std_max (WHITE_KEY_WIDTH + song_length pr * tick_width)
                                   (pr_w pr - scrollbar_w pr)\<rparr>\<rparr>;
          last_note_x = get_last_note_x pr1;
          width = last_note_x + pr_w pr1 - scrollbar_w pr1 - WHITE_KEY_WIDTH
      in if tl_w (piano_timeline pr1) <s width
         then pr1\<lparr>piano_timeline := (piano_timeline pr1)\<lparr>tl_w := width\<rparr>\<rparr>
         else pr1)"

definition set_size :: "int32 \<Rightarrow> int32 \<Rightarrow> Piano_Roll \<Rightarrow> Piano_Roll" where
  "set_size W H pr =
     (if W \<noteq> pr_w pr \<or> H \<noteq> pr_h pr then
        let pr1 = set_timeline_width (pr\<lparr>pr_w := W, pr_h := H\<rparr>);
            pr2 = (if scroll_x_max pr1 <s xposition pr1
                   then sticky_keys (scroll_to (scroll_x_max pr1) (yposition pr1) pr1)
                   else pr1)
        in if scroll_y_max pr2 <s yposition pr2
           then scroll_to (xposition pr2) (scroll_y_max pr2) pr2
           else pr2
      else pr)"

text \<open>\<^verbatim>\<open>set_timeline\<close> fills the four channels from the stream of \<^verbatim>\<open>rand()\<close> results,
  starting at call \<open>i\<close>, and returns the number of the next call with the widget.\<close>

definition set_timeline :: "(nat \<Rightarrow> nat) \<Rightarrow> nat \<Rightarrow> Piano_Roll \<Rightarrow> Piano_Roll \<times> nat" where
  "set_timeline rnd i pr =
     (let (n1, i1) = build_note_view 1 rnd i (pr_channel_1_notes pr);
          (n2, i2) = build_note_view 2 rnd i1 (pr_channel_2_notes pr);
          (n3, i3) = build_note_view 3 rnd i2 (pr_channel_3_notes pr);
          (n4, i4) = build_note_view 4 rnd i3 (pr_channel_4_notes pr);
          tln = set_channel_4 n4 (set_channel_3 n3 (set_channel_2 n2
                  (set_channel_1 n1 (piano_timeline pr))))
      in (set_timeline_width
            (pr\<lparr>song_length := 3072,
                pr_channel_1_notes := n1, pr_channel_2_notes := n2,
                pr_channel_3_notes := n3, pr_channel_4_notes := n4,
                piano_timeline := tln\<rparr>), i4))"

definition start_following :: "Piano_Roll \<Rightarrow> Piano_Roll" where
  "start_following pr =
     (let pr1 = pr\<lparr>following := True, pr_paused := False\<rparr>;
          tln = reset_note_colors (piano_timeline pr1);
          pr2 = pr1\<lparr>piano_timeline := tln\<lparr>keys := reset_channel_pitches (keys tln)\<rparr>\<rparr>
      in if pr_tick pr2 = - 1 then sticky_keys (scroll_to 0 (yposition pr2) pr2) else pr2)"

definition unpause_following :: "Piano_Roll \<Rightarrow> Piano_Roll" where
  "unpause_following pr = pr\<lparr>following := True, pr_paused := False\<rparr>"

definition stop_following :: "Piano_Roll \<Rightarrow> Piano_Roll" where
  "stop_following pr =
     (let pr1 = pr\<lparr>following := False, pr_paused := False, pr_tick := - 1\<rparr>;
          tln = reset_note_colors (piano_timeline pr1)
      in pr1\<lparr>piano_timeline := tln\<lparr>keys := reset_channel_pitches (keys tln)\<rparr>\<rparr>)"

definition pause_following :: "Piano_Roll \<Rightarrow> Piano_Roll" where
  "pause_following pr = pr\<lparr>following := False, pr_paused := True\<rparr>"

definition focus_cursor :: "bool \<Rightarrow> Piano_Roll \<Rightarrow> Piano_Roll" where
  "focus_cursor center pr =
     (let x_pos = (c_div (pr_tick pr) (ticks_per_step pr) * ticks_per_step pr) * tick_width
      in if (following pr \<and> continuous pr)
            \<or> xposition pr + pr_w pr - WHITE_KEY_WIDTH * 2 <s x_pos
            \<or> x_pos <s xposition pr
         then
           let scroll_pos = (if center then x_pos + WHITE_KEY_WIDTH - c_div (pr_w pr) 2
                             else x_pos)
           in sticky_keys
                (scroll_to (std_min (std_max scroll_pos 0) (scroll_x_max pr)) (yposition pr) pr)
         else pr)"

text \<open>\<^verbatim>\<open>Piano_Roll::highlight_tick\<close> calls \<^verbatim>\<open>focus_cursor()\<close> with the default argument
  \<^verbatim>\<open>center = false\<close>.\<close>

definition Piano_Roll_highlight_tick :: "int32 \<Rightarrow> Piano_Roll \<Rightarrow> error + Piano_Roll" where
  "Piano_Roll_highlight_tick t pr =
     (if pr_tick pr = t then Inr pr
      else
        let pr1 = pr\<lparr>pr_tick := t\<rparr>
        in case highlight_channel_1_tick (pr_tick pr1) (piano_timeline pr1) of
             Inl e \<Rightarrow> Inl e
           | Inr t1 \<Rightarrow>
          (case highlight_channel_2_tick (pr_tick pr1) t1 of
             Inl e \<Rightarrow> Inl e
           | Inr t2 \<Rightarrow>
          (case highlight_channel_3_tick (pr_tick pr1) t2 of
             Inl e \<Rightarrow> Inl e
           | Inr t3 \<Rightarrow>
          (case highlight_channel_4_tick (pr_tick pr1) t3 of
             Inl e \<Rightarrow> Inl e
           | Inr t4 \<Rightarrow> Inr (focus_cursor False (pr1\<lparr>piano_timeline := t4\<rparr>))))))"

definition hscrollbar_cb :: "int32 \<Rightarrow> Piano_Roll \<Rightarrow> Piano_Roll" where
  "hscrollbar_cb sb_value scroll =
     (let s1 = sticky_keys
                 (scroll_to (std_min sb_value (scroll_x_max scroll)) (yposition scroll) scroll)
      in if following s1 then focus_cursor False s1 else s1)"

definition scrollbar_cb :: "int32 \<Rightarrow> Piano_Roll \<Rightarrow> Piano_Roll" where
  "scrollbar_cb sb_value scroll =
     scroll_to (xposition scroll) (std_min sb_value (scroll_y_max scroll)) scroll"



text \<open>The widgets as the constructors leave them, before \<^verbatim>\<open>set_timeline\<close>.\<close>

definition Piano_Keys_init :: "int32 \<Rightarrow> int32 \<Rightarrow> Piano_Keys" where
  "Piano_Keys_init X Y =
     \<lparr>keys_x = X, keys_y = Y,
      channel_1_pitch = REST, channel_1_octave = 0,
      channel_2_pitch = REST, channel_2_octave = 0,
      channel_3_pitch = REST, channel_3_octave = 0,
      channel_4_pitch = REST, channel_4_octave = 0\<rparr>"

definition Piano_Timeline_init :: "int32 \<Rightarrow> int32 \<Rightarrow> int32 \<Rightarrow> int32 \<Rightarrow> Piano_Timeline" where
  "Piano_Timeline_init X Y W H =
     \<lparr>tl_x = X, tl_y = Y, tl_w = W, tl_h = H, keys = Piano_Keys_init X Y,
      tl_channel_1_notes = [], tl_channel_2_notes = [],
      tl_channel_3_notes = [], tl_channel_4_notes = [], cursor_tick = - 1\<rparr>"

definition Piano_Roll_init ::
  "int32 \<Rightarrow> int32 \<Rightarrow> int32 \<Rightarrow> int32 \<Rightarrow> int32 \<Rightarrow> int32 \<Rightarrow> Piano_Roll" where
  "Piano_Roll_init X Y W H sb_w hsb_h =
     \<lparr>pr_x = X, pr_y = Y, pr_w = W, pr_h = H, xposition = 0, yposition = 0,
      scrollbar_w = sb_w, hscrollbar_h = hsb_h,
      pr_tick = - 1, following = False, continuous = True, pr_paused = False,
      ticks_per_step = TICKS_PER_STEP,
      piano_timeline = Piano_Timeline_init X Y (W - sb_w) (ucast NUM_OCTAVES * octave_height),
      pr_channel_1_notes = [], pr_channel_2_notes = [],
      pr_channel_3_notes = [], pr_channel_4_notes = [], song_length = - 1\<rparr>"

section \<open>The window and the playback thread\<close>

record Main_Window =
  piano_roll :: Piano_Roll
  it_module :: IT_Module
  mw_tick :: int32
  sync_requested :: bool

definition Main_Window_init :: "Piano_Roll \<Rightarrow> Main_Window" where
  "Main_Window_init pr =
     \<lparr>piano_roll = pr, it_module = IT_Module_init, mw_tick = - 1, sync_requested = False\<rparr>"

text \<open>
  What the window shares with the toolkit and with its thread: \<open>audio_thread\<close> is
  \<open>Some tick\<close> while a playback thread runs, \<open>tick\<close> being its local variable;
  \<open>awake_ring\<close> counts the \<^verbatim>\<open>sync_cb\<close> handlers that \<^verbatim>\<open>Fl::awake\<close> has queued and the
  event loop has not yet taken; \<open>in_sync_cb\<close> holds from the moment the event loop has
  taken a handler until \<^verbatim>\<open>sync_cb\<close> has run.
\<close>

record System =
  window :: Main_Window
  audio_thread :: "int32 option"
  awake_ring :: nat
  in_sync_cb :: bool

definition System_init :: "Piano_Roll \<Rightarrow> System" where
  "System_init pr =
     \<lparr>window = Main_Window_init pr, audio_thread = None, awake_ring = 0, in_sync_cb = False\<rparr>"

definition Fl_awake :: "System \<Rightarrow> System" where
  "Fl_awake s = s\<lparr>awake_ring := awake_ring s + 1\<rparr>"

definition start_audio_thread :: "System \<Rightarrow> System" where
  "start_audio_thread s = s\<lparr>audio_thread := Some (- 1)\<rparr>"

text \<open>\<^verbatim>\<open>stop_audio_thread\<close> returns when the thread has been joined.\<close>

definition stop_audio_thread :: "System \<Rightarrow> System" where
  "stop_audio_thread s = s\<lparr>audio_thread := None\<rparr>"

definition toggle_playback :: "System \<Rightarrow> System" where
  "toggle_playback s0 =
     (let s = stop_audio_thread s0; mw = window s
      in if stopped (it_module mw) then
           (if ready (it_module mw) then
              start_audio_thread
                (s\<lparr>window := mw\<lparr>it_module := start (it_module mw),
                                  piano_roll := start_following (piano_roll mw)\<rparr>\<rparr>)
            else s)
         else if paused (it_module mw) then
           (if ready (it_module mw) then
              start_audio_thread
                (s\<lparr>window := mw\<lparr>it_module := start (it_module mw),
                                  piano_roll := unpause_following (piano_roll mw)\<rparr>\<rparr>)
            else s)
         else
           s\<lparr>window := mw\<lparr>it_module := pause (it_module mw),
                             piano_roll := pause_following (piano_roll mw)\<rparr>\<rparr>)"

definition stop_playback :: "System \<Rightarrow> System" where
  "stop_playback s0 =
     (let s = stop_audio_thread s0; mw = window s
      in if \<not> stopped (it_module mw) then
           s\<lparr>window := mw\<lparr>it_module := stop (it_module mw), mw_tick := - 1,
                             piano_roll := stop_following (piano_roll mw)\<rparr>\<rparr>
         else s)"

definition speed_slider_cb :: "int32 \<Rightarrow> Main_Window \<Rightarrow> Main_Window" where
  "speed_slider_cb speed mw =
     (if speed \<noteq> m_speed (it_module mw)
      then mw\<lparr>it_module := set_speed speed (it_module mw)\<rparr>
      else mw)"

definition continuous_cb :: "bool \<Rightarrow> Main_Window \<Rightarrow> Main_Window" where
  "continuous_cb c mw = mw\<lparr>piano_roll := set_continuous_scroll c (piano_roll mw)\<rparr>"

text \<open>
  One iteration of the loop of \<^verbatim>\<open>playback_thread\<close> in which \<^verbatim>\<open>try_lock\<close> succeeds; the
  iteration runs under \<^verbatim>\<open>_audio_mutex\<close>. The result says whether the loop goes on and
  gives the thread's local \<^verbatim>\<open>tick\<close>.
\<close>

definition playback_thread_iteration :: "int32 \<Rightarrow> System \<Rightarrow> bool \<times> int32 \<times> System" where
  "playback_thread_iteration tick s =
     (let mw = window s
      in if playing (it_module mw) then
           let mw1 = mw\<lparr>it_module := play (it_module mw)\<rparr>;
               t = current_tick (it_module mw1)
           in if tick \<noteq> t then
                let mw2 = mw1\<lparr>mw_tick := t\<rparr>
                in if \<not> sync_requested mw2
                   then (True, t, (Fl_awake (s\<lparr>window := mw2\<rparr>))
                                    \<lparr>window := mw2\<lparr>sync_requested := True\<rparr>\<rparr>)
                   else (True, t, s\<lparr>window := mw2\<rparr>)
              else (True, tick, s\<lparr>window := mw1\<rparr>)
         else
           let mw1 = mw\<lparr>mw_tick := - 1\<rparr>
           in if \<not> sync_requested mw1
              then (False, tick, (Fl_awake (s\<lparr>window := mw1\<rparr>))
                                   \<lparr>window := mw1\<lparr>sync_requested := True\<rparr>\<rparr>)
              else (False, tick, s\<lparr>window := mw1\<rparr>))"

text \<open>\<^verbatim>\<open>sync_cb\<close> runs in the event loop, under \<^verbatim>\<open>_audio_mutex\<close>.\<close>

definition sync_cb :: "Main_Window \<Rightarrow> error + Main_Window" where
  "sync_cb mw =
     (case (if playing (it_module mw) \<and> 0 <s mw_tick mw then
              (case Piano_Roll_highlight_tick (mw_tick mw) (piano_roll mw) of
                 Inl e \<Rightarrow> Inl e
               | Inr pr \<Rightarrow> Inr (mw\<lparr>piano_roll := pr\<rparr>))
            else if stopped (it_module mw) then
              Inr (mw\<lparr>mw_tick := - 1, piano_roll := stop_following (piano_roll mw)\<rparr>)
            else Inr mw) of
        Inl e \<Rightarrow> Inl e
      | Inr mw1 \<Rightarrow> Inr (mw1\<lparr>sync_requested := False\<rparr>))"

text \<open>
  The atomic steps of the running program: an iteration of the playback thread, the
  event loop taking a queued handler, the handler \<^verbatim>\<open>sync_cb\<close> itself, and the user's
  menu and slider callbacks (which the event loop runs between handlers). A step that
  cannot happen in a state, or that aborts, has no successor.
\<close>

datatype event =
  Thread_Iteration | Awake_Dispatch | Sync_Cb
  | Play_Pause_Cb | Stop_Cb | Speed_Slider_Cb int32 | Continuous_Cb bool

fun step :: "System \<Rightarrow> event \<Rightarrow> System option" where
  "step s Thread_Iteration =
     (case audio_thread s of
        None \<Rightarrow> None
      | Some tick \<Rightarrow>
          (let (continue, tick1, s1) = playback_thread_iteration tick s
           in Some (s1\<lparr>audio_thread := (if continue then Some tick1 else None)\<rparr>)))"
| "step s Awake_Dispatch =
     (if 0 < awake_ring s \<and> \<not> in_sync_cb s
      then Some (s\<lparr>awake_ring := awake_ring s - 1, in_sync_cb := True\<rparr>)
      else None)"
| "step s Sync_Cb =
     (if in_sync_cb s then
        (case sync_cb (window s) of
           Inl e \<Rightarrow> None
         | Inr mw \<Rightarrow> Some (s\<lparr>window := mw, in_sync_cb := False\<rparr>))
      else None)"
| "step s Play_Pause_Cb = (if in_sync_cb s then None else Some (toggle_playback s))"
| "step s Stop_Cb = (if in_sync_cb s then None else Some (stop_playback s))"
| "step s (Speed_Slider_Cb speed) =
     (if in_sync_cb s then None else Some (s\<lparr>window := speed_slider_cb speed (window s)\<rparr>))"
| "step s (Continuous_Cb c) =
     (if in_sync_cb s then None else Some (s\<lparr>window := continuous_cb c (window s)\<rparr>))"

fun steps :: "System \<Rightarrow> event list \<Rightarrow> System option" where
  "steps s [] = Some s"
| "steps s (e # es) = (case step s e of None \<Rightarrow> None | Some s1 \<Rightarrow> steps s1 es)"

text \<open>The wakeups outstanding: handlers queued, and the one taken but not yet run.\<close>

definition pending_wakeups :: "System \<Rightarrow> nat" where
  "pending_wakeups s = awake_ring s + (if in_sync_cb s then 1 else 0)"

section \<open>Notions used to state the properties\<close>

text \<open>The ticks of all notes before position \<open>j\<close> of a sequence, and the positions of
  the notes that are not rests.\<close>

definition ticks_before :: "Note_View list \<Rightarrow> nat \<Rightarrow> int32" where
  "ticks_before notes j = sum_list (map (\<lambda>n. nv_length n * nv_speed n) (take j notes))"

definition non_rest_indices :: "Note_View list \<Rightarrow> nat list" where
  "non_rest_indices notes = filter (\<lambda>j. nv_pitch (notes ! j) \<noteq> REST) [0..<length notes]"

text \<open>The local \<^verbatim>\<open>x_pos\<close> of \<^verbatim>\<open>focus_cursor\<close>, and the offset it passes to
  \<^verbatim>\<open>scroll_to\<close> when it scrolls.\<close>

definition x_pos :: "Piano_Roll \<Rightarrow> int32" where
  "x_pos pr = (c_div (pr_tick pr) (ticks_per_step pr) * ticks_per_step pr) * tick_width"

definition scroll_target :: "bool \<Rightarrow> Piano_Roll \<Rightarrow> int32" where
  "scroll_target center pr =
     std_min (std_max (if center then x_pos pr + WHITE_KEY_WIDTH - c_div (pr_w pr) 2
                       else x_pos pr) 0)
       (scroll_x_max pr)"

text \<open>Every outstanding wakeup is accounted for by the flag \<^verbatim>\<open>_sync_requested\<close>.\<close>

definition coalesced :: "System \<Rightarrow> bool" where
  "coalesced s = (pending_wakeups s = (if sync_requested (window s) then 1 else 0))"

text \<open>
  A piano roll as the window of 800 by 600 pixels holds it when playback has just been
  started: 16 pixel wide scrollbars, a song of 3072 ticks, and, in place of the random
  notes, a short first channel of a note, a rest and a note. It is the state that
  \<^verbatim>\<open>set_channel_1\<close>, \<^verbatim>\<open>set_timeline_width\<close> and \<^verbatim>\<open>start_following\<close> compute from the
  constructed widget (lemma \<open>example_roll_reached\<close>).
\<close>

definition example_notes :: "Note_View list" where
  "example_notes =
     [\<lparr>nv_length = 2, nv_pitch = C_NAT, nv_octave = 1, nv_speed = 3\<rparr>,
      \<lparr>nv_length = 1, nv_pitch = REST, nv_octave = 1, nv_speed = 4\<rparr>,
      \<lparr>nv_length = 4, nv_pitch = B_NAT, nv_octave = 1, nv_speed = 1\<rparr>]"

definition example_timeline :: Piano_Timeline where
  "example_timeline =
     \<lparr>tl_x = 0, tl_y = 21, tl_w = 9366, tl_h = 1344, keys = Piano_Keys_init 0 21,
      tl_channel_1_notes =
        [\<lparr>note_view = \<lparr>nv_length = 2, nv_pitch = C_NAT, nv_octave = 1, nv_speed = 3\<rparr>,
          nb_tick = 0, nb_x = 150, nb_y = 1351, nb_w = 18, nb_h = 14, nb_color = NOTE_RED\<rparr>,
         \<lparr>note_view = \<lparr>nv_length = 4, nv_pitch = B_NAT, nv_octave = 1, nv_speed = 1\<rparr>,
          nb_tick = 10, nb_x = 180, nb_y = 1197, nb_w = 12, nb_h = 14, nb_color = NOTE_RED\<rparr>],
      tl_channel_2_notes = [], tl_channel_3_notes = [], tl_channel_4_notes = [],
      cursor_tick = - 1\<rparr>"

definition example_roll :: Piano_Roll where
  "example_roll =
     \<lparr>pr_x = 0, pr_y = 21, pr_w = 800, pr_h = 556, xposition = 0, yposition = 0,
      scrollbar_w = 16, hscrollbar_h = 16, pr_tick = - 1,
      following = True, continuous = True, pr_paused = False, ticks_per_step = 12,
      piano_timeline = example_timeline,
      pr_channel_1_notes = example_notes, pr_channel_2_notes = [],
      pr_channel_3_notes = [], pr_channel_4_notes = [], song_length = 3072\<rparr>"

section \<open>Arithmetic helpers\<close>

lemma sint_add_no_overflow:
  fixes a b :: int32
  assumes "- 2147483648 \<le> sint a + sint b" and "sint a + sint b \<le> 2147483647"
  shows "sint (a + b) = sint a + sint b"
  using assms by (simp add: sint_word_ariths signed_take_bit_int_eq_self)

lemma sint_sub_no_overflow:
  fixes a b :: int32
  assumes "- 2147483648 \<le> sint a - sint b" and "sint a - sint b \<le> 2147483647"
  shows "sint (a - b) = sint a - sint b"
  using assms by (simp add: sint_word_ariths signed_take_bit_int_eq_self)

lemma sint_mult_no_overflow:
  fixes a b :: int32
  assumes "- 2147483648 \<le> sint a * sint b" and "sint a * sint b \<le> 2147483647"
  shows "sint (a * b) = sint a * sint b"
  using assms by (simp add: sint_word_ariths signed_take_bit_int_eq_self)

lemma sint_of_nat_small:
  assumes "n < 2147483648"
  shows "sint (word_of_nat n :: int32) = int n"
proof -
  have "sint (word_of_int (int n) :: int32) = int n"
    using assms by (simp only: sint_sbintrunc') (simp add: signed_take_bit_int_eq_self)
  then show ?thesis by simp
qed

lemma sint_rand_mod:
  assumes "0 < k" "k \<le> 16"
  shows "sint ((word_of_nat (r mod k) + 1) :: int32) = int (r mod k) + 1"
proof -
  have "r mod k < k" using assms by simp
  then have lt: "r mod k < 16" using assms by linarith
  then have a: "sint (word_of_nat (r mod k) :: int32) = int (r mod k)"
    by (intro sint_of_nat_small) simp
  have "sint ((word_of_nat (r mod k) + 1) :: int32)
        = sint (word_of_nat (r mod k) :: int32) + sint (1::int32)"
    by (rule sint_add_no_overflow) (use a lt in simp_all)
  then show ?thesis using a by simp
qed

lemma c_div_numerals:
  "c_div 600 12 = 50" "c_div 3071 12 = 255" "c_div 7 12 = 0" "c_div 800 2 = 400"
  "c_div (- 1) 12 = 0"
  by (simp_all add: c_div_def signed_divide_int_def)

section \<open>Playback tick\<close>

lemma play_not_playing: "\<not> playing m \<Longrightarrow> play m = m"
  by (simp add: play_def)

lemma play_playing:
  "playing m \<Longrightarrow>
   play m = (if 3072 \<le>s current_tick m + m_speed m then m\<lparr>current_tick := 0\<rparr>
             else m\<lparr>current_tick := current_tick m + m_speed m\<rparr>)"
  by (simp add: play_def ready_def Let_def)

text \<open>
  Claim C5 says that for every speed \<open>s \<ge> 1\<close> a call of \<^verbatim>\<open>play\<close> on a playing module
  either adds \<open>s\<close> to the tick or resets it to 0 once \<open>tick + s\<close> reaches 3072, and
  never lowers it otherwise. The tick and the speed are 32-bit integers and \<^verbatim>\<open>play\<close> adds
  them unchecked: at tick 3071 and speed 2147483647 the sum reaches 3072 but does not fit,
  the stored tick is \<open>-2147480578\<close>, lower than before, and it is not reset to 0.
\<close>

theorem play_tick_overflow_decreases:
  "playing \<lparr>current_tick = 3071, m_playing = True, m_paused = False, m_speed = 2147483647\<rparr>
   \<and> 1 \<le> sint (m_speed
         \<lparr>current_tick = 3071, m_playing = True, m_paused = False, m_speed = 2147483647\<rparr>)
   \<and> sint (current_tick (play
         \<lparr>current_tick = 3071, m_playing = True, m_paused = False, m_speed = 2147483647\<rparr>))
       = - 2147480578
   \<and> sint (current_tick (play
         \<lparr>current_tick = 3071, m_playing = True, m_paused = False, m_speed = 2147483647\<rparr>))
       < sint (current_tick
         \<lparr>current_tick = 3071, m_playing = True, m_paused = False, m_speed = 2147483647\<rparr>)
   \<and> current_tick (play
         \<lparr>current_tick = 3071, m_playing = True, m_paused = False, m_speed = 2147483647\<rparr>)
       \<noteq> 0"
  by (simp add: play_playing playing_def)

text \<open>
  Claim C5, amended. While the module is playing and the speed \<open>s\<close> is at least 1 and
  \<open>tick + s\<close> fits \<^verbatim>\<open>int32_t\<close> (as it does for every tick below 3072 and the speeds 1 to
  10 of the slider), one call of \<^verbatim>\<open>play\<close> either advances the tick by exactly \<open>s\<close> (when
  the sum stays below the song length 3072) or resets it to 0 (when the sum reaches
  3072), and it lowers the tick in no other case; when the module is not playing,
  \<^verbatim>\<open>play\<close> changes nothing.
\<close>

theorem play_tick_advance_or_wrap:
  assumes "1 \<le> sint (m_speed m)"
    and "sint (current_tick m) + sint (m_speed m) \<le> 2147483647"
  shows "(playing m \<and> sint (current_tick m) + sint (m_speed m) < 3072 \<longrightarrow>
            sint (current_tick (play m)) = sint (current_tick m) + sint (m_speed m))
       \<and> (playing m \<and> 3072 \<le> sint (current_tick m) + sint (m_speed m) \<longrightarrow>
            current_tick (play m) = 0)
       \<and> (playing m \<and> sint (current_tick (play m)) < sint (current_tick m) \<longrightarrow>
            current_tick (play m) = 0)
       \<and> (\<not> playing m \<longrightarrow> play m = m)"
proof -
  have lo: "- 2147483648 \<le> sint (current_tick m) + sint (m_speed m)"
    using assms(1) sint_ge [of "current_tick m"] by simp
  have sum: "sint (current_tick m + m_speed m) = sint (current_tick m) + sint (m_speed m)"
    using lo assms(2) by (rule sint_add_no_overflow)
  have cmp: "(3072 \<le>s current_tick m + m_speed m)
             = (3072 \<le> sint (current_tick m) + sint (m_speed m))"
    by (simp add: word_sle_eq sum)
  show ?thesis
    using assms(1) by (auto simp: play_playing play_not_playing cmp sum)
qed

theorem play_tick_advance_or_wrap_witness:
  "sint (current_tick (play \<lparr>current_tick = 3070, m_playing = True, m_paused = False, m_speed = 1\<rparr>)) = 3071
   \<and> current_tick (play \<lparr>current_tick = 3070, m_playing = True, m_paused = False, m_speed = 2\<rparr>) = 0
   \<and> play \<lparr>current_tick = 3070, m_playing = False, m_paused = True, m_speed = 2\<rparr>
       = \<lparr>current_tick = 3070, m_playing = False, m_paused = True, m_speed = 2\<rparr>"
  using
    play_tick_advance_or_wrap
      [of "\<lparr>current_tick = 3070, m_playing = True, m_paused = False, m_speed = 1\<rparr>"]
    play_tick_advance_or_wrap
      [of "\<lparr>current_tick = 3070, m_playing = True, m_paused = False, m_speed = 2\<rparr>"]
    play_tick_advance_or_wrap
      [of "\<lparr>current_tick = 3070, m_playing = False, m_paused = True, m_speed = 2\<rparr>"]
  by (simp add: playing_def)

section \<open>Playing and paused exclude each other\<close>

lemma exec_exclusive:
  "\<not> (playing m \<and> paused m) \<Longrightarrow> \<not> (playing (exec m c) \<and> paused (exec m c))"
  by (cases c)
     (auto simp: playing_def paused_def start_def stop_def pause_def set_speed_def
                 play_def Let_def)

lemma foldl_exec_exclusive:
  "\<not> (playing m \<and> paused m) \<Longrightarrow>
   \<not> (playing (foldl exec m cs) \<and> paused (foldl exec m cs))"
proof (induction cs arbitrary: m)
  case Nil
  then show ?case by simp
next
  case (Cons c cs)
  from Cons.prems have "\<not> (playing (exec m c) \<and> paused (exec m c))"
    by (rule exec_exclusive)
  then show ?case using Cons.IH by simp
qed

text \<open>
  Claim C6. From the initial module (neither playing nor paused), after any sequence
  of \<^verbatim>\<open>start\<close>, \<^verbatim>\<open>stop\<close>, \<^verbatim>\<open>pause\<close>, \<^verbatim>\<open>play\<close> and \<^verbatim>\<open>speed\<close> calls the module is never
  both playing and paused, so exactly one of playing, paused and stopped holds.
\<close>

theorem playing_paused_exclusive:
  "\<not> (playing (run cs) \<and> paused (run cs))
   \<and> ((playing (run cs) \<and> \<not> paused (run cs) \<and> \<not> stopped (run cs))
      \<or> (\<not> playing (run cs) \<and> paused (run cs) \<and> \<not> stopped (run cs))
      \<or> (\<not> playing (run cs) \<and> \<not> paused (run cs) \<and> stopped (run cs)))"
proof -
  have init: "\<not> (playing IT_Module_init \<and> paused IT_Module_init)"
    by (simp add: playing_def paused_def IT_Module_init_def)
  have "\<not> (playing (run cs) \<and> paused (run cs))"
    unfolding run_def using init by (rule foldl_exec_exclusive)
  then show ?thesis by (auto simp: stopped_def)
qed

theorem playing_paused_exclusive_witness:
  "playing (run [Start, Play, Speed 4, Play, Pause, Start])
   \<and> \<not> paused (run [Start, Play, Speed 4, Play, Pause, Start])
   \<and> paused (run [Start, Play, Pause])
   \<and> \<not> playing (run [Start, Play, Pause])
   \<and> stopped (run [Start, Play, Pause, Stop])"
  using playing_paused_exclusive [of "[Start, Play, Speed 4, Play, Pause, Start]"]
    playing_paused_exclusive [of "[Start, Play, Pause]"]
    playing_paused_exclusive [of "[Start, Play, Pause, Stop]"]
  by (simp add: run_def IT_Module_init_def start_def stop_def pause_def set_speed_def
        play_def ready_def playing_def paused_def stopped_def Let_def)

section \<open>The generated note sequence\<close>

lemma next_note_fields:
  "1 \<le> sint (nv_length (next_note c rnd i))"
  "sint (nv_length (next_note c rnd i)) \<le> 4"
  "1 \<le> sint (nv_speed (next_note c rnd i))"
  "sint (nv_speed (next_note c rnd i)) \<le> 4"
  "nv_octave (next_note c rnd i) = c"
proof -
  have "rnd i mod 4 < 4" "rnd (i + 1) mod 4 < 4" by simp_all
  then show "1 \<le> sint (nv_length (next_note c rnd i))"
    "sint (nv_length (next_note c rnd i)) \<le> 4"
    "1 \<le> sint (nv_speed (next_note c rnd i))"
    "sint (nv_speed (next_note c rnd i)) \<le> 4"
    "nv_octave (next_note c rnd i) = c"
    by (simp_all add: next_note_def Let_def sint_rand_mod)
qed

lemma pitch_of_nat_not_rest: "pitch_of_nat (r mod 12 + 1) \<noteq> REST"
proof -
  let ?ps = "[C_NAT, C_SHARP, D_NAT, D_SHARP, E_NAT, F_NAT, F_SHARP,
      G_NAT, G_SHARP, A_NAT, A_SHARP, B_NAT]"
  have "r mod 12 < length ?ps" by simp
  then have "?ps ! (r mod 12) \<in> set ?ps" by (rule nth_mem)
  moreover have "pitch_of_nat (r mod 12 + 1) = ?ps ! (r mod 12)"
    by (simp add: pitch_of_nat_def)
  ultimately show ?thesis by auto
qed

lemma generated_next_note: "generated_note c (next_note c rnd i)"
  unfolding generated_note_def
  using next_note_fields [of c rnd i] pitch_of_nat_not_rest [of "rnd (i + 2)"]
  by (simp add: next_note_def Let_def)

lemma generated_note_ticks:
  assumes "generated_note c n"
  shows "sint (nv_length n * nv_speed n) = sint (nv_length n) * sint (nv_speed n)"
    and "1 \<le> sint (nv_length n) * sint (nv_speed n)"
    and "sint (nv_length n) * sint (nv_speed n) \<le> 16"
proof -
  have f: "1 \<le> sint (nv_length n)" "sint (nv_length n) \<le> 4"
    "1 \<le> sint (nv_speed n)" "sint (nv_speed n) \<le> 4"
    using assms by (simp_all add: generated_note_def)
  have "1 * 1 \<le> sint (nv_length n) * sint (nv_speed n)"
    using f by (intro mult_mono) simp_all
  then show lo: "1 \<le> sint (nv_length n) * sint (nv_speed n)" by simp
  have "sint (nv_length n) * sint (nv_speed n) \<le> 4 * 4"
    using f by (intro mult_mono) simp_all
  then show hi: "sint (nv_length n) * sint (nv_speed n) \<le> 16" by simp
  show "sint (nv_length n * nv_speed n) = sint (nv_length n) * sint (nv_speed n)"
    using lo hi by (intro sint_mult_no_overflow) simp_all
qed

lemma build_note_view_loop_inv:
  assumes "list_all (generated_note c) ns"
    and "sint tick = total_ticks ns"
    and "sint tick < 3072"
  shows "list_all (generated_note c) (fst (build_note_view_loop c rnd i tick ns))
       \<and> 3056 \<le> total_ticks (fst (build_note_view_loop c rnd i tick ns))
       \<and> total_ticks (fst (build_note_view_loop c rnd i tick ns)) < 3072"
  using assms
proof (induction c rnd i tick ns rule: build_note_view_loop.induct)
  case (1 c rnd i tick ns)
  show ?case
  proof (cases "tick <s 3072 - 16")
    case True
    let ?n = "next_note c rnd i"
    note g = generated_note_ticks [OF generated_next_note [of c rnd i]]
    have t: "sint tick < 3056" using True by (simp add: word_sless_alt)
    have adv: "sint (tick + nv_length ?n * nv_speed ?n)
               = sint tick + sint (nv_length ?n * nv_speed ?n)"
      using t g sint_ge [of tick] by (intro sint_add_no_overflow) simp_all
    have a: "list_all (generated_note c) (ns @ [?n])"
      using "1.prems"(1) generated_next_note [of c rnd i] by simp
    have b: "sint (tick + nv_length ?n * nv_speed ?n) = total_ticks (ns @ [?n])"
      using adv "1.prems"(2) g(1) by (simp add: total_ticks_def)
    have c: "sint (tick + nv_length ?n * nv_speed ?n) < 3072"
      using adv t g by simp
    have "build_note_view_loop c rnd i tick ns
          = build_note_view_loop c rnd (i + 3) (tick + nv_length ?n * nv_speed ?n) (ns @ [?n])"
      using True by (subst build_note_view_loop.simps) (simp add: Let_def)
    then show ?thesis
      using "1.IH" [OF True refl a b c] by simp
  next
    case False
    then have "3056 \<le> sint tick" by (simp add: word_sless_alt)
    moreover have "build_note_view_loop c rnd i tick ns = (ns, i)"
      using False by (subst build_note_view_loop.simps) simp
    ultimately show ?thesis using "1.prems" by simp
  qed
qed

lemma build_note_view_generated:
  "generated_channel c (fst (build_note_view c rnd i []))"
  unfolding generated_channel_def build_note_view_def
  by (rule build_note_view_loop_inv) (simp_all add: total_ticks_def)

lemma set_timeline_channels:
  "\<exists>j. pr_channel_1_notes (fst (set_timeline rnd i pr))
         = fst (build_note_view 1 rnd j (pr_channel_1_notes pr))"
  "\<exists>j. pr_channel_2_notes (fst (set_timeline rnd i pr))
         = fst (build_note_view 2 rnd j (pr_channel_2_notes pr))"
  "\<exists>j. pr_channel_3_notes (fst (set_timeline rnd i pr))
         = fst (build_note_view 3 rnd j (pr_channel_3_notes pr))"
  "\<exists>j. pr_channel_4_notes (fst (set_timeline rnd i pr))
         = fst (build_note_view 4 rnd j (pr_channel_4_notes pr))"
  by (simp_all add: set_timeline_def Let_def split_beta set_timeline_width_def) blast+

lemma Piano_Roll_init_channels:
  "pr_channel_1_notes (Piano_Roll_init X Y W H sb hsb) = []"
  "pr_channel_2_notes (Piano_Roll_init X Y W H sb hsb) = []"
  "pr_channel_3_notes (Piano_Roll_init X Y W H sb hsb) = []"
  "pr_channel_4_notes (Piano_Roll_init X Y W H sb hsb) = []"
  by (simp_all add: Piano_Roll_init_def)

text \<open>
  Claim C10. For every stream of \<^verbatim>\<open>rand()\<close> results (and wherever in the stream the
  generator starts), the sequence that \<^verbatim>\<open>build_note_view\<close> appends to an empty vector
  for channel \<open>c\<close> holds only notes with a pitch other than \<open>REST\<close>, a length and a
  speed between 1 and 4 and octave \<open>c\<close>, and its cumulative tick length is at least 3056
  and below the song length 3072. So it is for each of the four channels that
  \<^verbatim>\<open>set_timeline\<close> fills in a newly constructed piano roll.
\<close>

theorem build_note_view_bounds:
  "generated_channel c (fst (build_note_view c rnd i []))
   \<and> generated_channel 1
        (pr_channel_1_notes (fst (set_timeline rnd i (Piano_Roll_init X Y W H sb hsb))))
   \<and> generated_channel 2
        (pr_channel_2_notes (fst (set_timeline rnd i (Piano_Roll_init X Y W H sb hsb))))
   \<and> generated_channel 3
        (pr_channel_3_notes (fst (set_timeline rnd i (Piano_Roll_init X Y W H sb hsb))))
   \<and> generated_channel 4
        (pr_channel_4_notes (fst (set_timeline rnd i (Piano_Roll_init X Y W H sb hsb))))"
  using set_timeline_channels [of rnd i "Piano_Roll_init X Y W H sb hsb"]
  by (auto simp: Piano_Roll_init_channels build_note_view_generated)

theorem build_note_view_bounds_witness:
  "list_all (generated_note 2) (fst (build_note_view 2 (\<lambda>k. 7 * k + 3) 0 []))
   \<and> 3056 \<le> total_ticks (fst (build_note_view 2 (\<lambda>k. 7 * k + 3) 0 []))
   \<and> total_ticks (fst (build_note_view 2 (\<lambda>k. 7 * k + 3) 0 [])) < 3072"
  using build_note_view_bounds [of 2 "\<lambda>k. 7 * k + 3" 0, THEN conjunct1]
  by (simp add: generated_channel_def)

section \<open>The channel-number assertion\<close>

lemma channel_number_cases:
  fixes cn :: int32
  assumes "1 \<le>s cn" "cn \<le>s 4"
  shows "cn = 1 \<or> cn = 2 \<or> cn = 3 \<or> cn = 4"
proof -
  have "1 \<le> sint cn" "sint cn \<le> 4"
    using assms by (simp_all add: word_sle_eq)
  then have "sint cn = 1 \<or> sint cn = 2 \<or> sint cn = 3 \<or> sint cn = 4" by arith
  moreover have "cn = word_of_int (sint cn)" by simp
  ultimately show ?thesis by (metis word_of_int_1 word_of_int_numeral)
qed

lemma channel_constants_in_range:
  "(1::int32) \<le>s 1" "(1::int32) \<le>s 2" "(1::int32) \<le>s 3" "(1::int32) \<le>s 4"
  "(2::int32) \<le>s 4" "(3::int32) \<le>s 4" "(4::int32) \<le>s 4"
  by (simp_all add: word_sle_eq)

lemma set_channel_pitch_in_range:
  assumes "1 \<le>s cn" "cn \<le>s 4"
  shows "\<exists>ks1. set_channel_pitch cn p oct ks = Inr ks1"
  using assms by (simp add: set_channel_pitch_def)

lemma highlight_tick_loop_in_range:
  assumes "1 \<le>s cn" "cn \<le>s 4"
  shows "\<exists>r. highlight_tick_loop cn tick color ks ns = Inr r"
proof (induction ns arbitrary: ks)
  case Nil
  show ?case by simp
next
  case (Cons b ns)
  show ?case
  proof (cases "tick <s nb_tick b")
    case True
    then show ?thesis by (simp add: Let_def)
  next
    case False
    obtain ks1 where ks1:
      "(if tick <s nb_tick b + nv_length (note_view b) * nv_speed (note_view b)
        then set_channel_pitch cn (nv_pitch (note_view b)) (nv_octave (note_view b)) ks
        else Inr ks) = Inr ks1"
    proof (cases "tick <s nb_tick b + nv_length (note_view b) * nv_speed (note_view b)")
      case True
      then show ?thesis
        using that set_channel_pitch_in_range
          [OF assms, of "nv_pitch (note_view b)" "nv_octave (note_view b)" ks]
        by auto
    next
      case False
      then show ?thesis using that by simp
    qed
    obtain r where r: "highlight_tick_loop cn tick color ks1 ns = Inr r"
      using Cons.IH by blast
    show ?thesis
      using False ks1 r by (cases r) (simp add: Let_def)
  qed
qed

lemma Piano_Timeline_highlight_tick_in_range:
  assumes "1 \<le>s cn" "cn \<le>s 4"
  shows "\<exists>r. Piano_Timeline_highlight_tick ks ns cn tick color = Inr r"
proof -
  obtain ks1 where "set_channel_pitch cn REST 0 ks = Inr ks1"
    using set_channel_pitch_in_range [OF assms] by blast
  then show ?thesis
    using highlight_tick_loop_in_range [OF assms]
    by (simp add: Piano_Timeline_highlight_tick_def)
qed

lemma highlight_channel_tick_ok:
  "\<exists>t1. highlight_channel_1_tick tick tln = Inr t1"
  "\<exists>t2. highlight_channel_2_tick tick tln = Inr t2"
  "\<exists>t3. highlight_channel_3_tick tick tln = Inr t3"
  "\<exists>t4. highlight_channel_4_tick tick tln = Inr t4"
proof -
  obtain r1 where "Piano_Timeline_highlight_tick (keys tln) (tl_channel_1_notes tln) 1 tick NOTE_RED_LIGHT = Inr r1"
    using Piano_Timeline_highlight_tick_in_range
        [of 1 "keys tln" "tl_channel_1_notes tln" tick NOTE_RED_LIGHT]
    by (auto simp: channel_constants_in_range)
  then show "\<exists>t1. highlight_channel_1_tick tick tln = Inr t1"
    by (cases r1) (simp add: highlight_channel_1_tick_def)
  obtain r2 where "Piano_Timeline_highlight_tick (keys tln) (tl_channel_2_notes tln) 2 tick NOTE_BLUE_LIGHT = Inr r2"
    using Piano_Timeline_highlight_tick_in_range
        [of 2 "keys tln" "tl_channel_2_notes tln" tick NOTE_BLUE_LIGHT]
    by (auto simp: channel_constants_in_range)
  then show "\<exists>t2. highlight_channel_2_tick tick tln = Inr t2"
    by (cases r2) (simp add: highlight_channel_2_tick_def)
  obtain r3 where "Piano_Timeline_highlight_tick (keys tln) (tl_channel_3_notes tln) 3 tick NOTE_GREEN_LIGHT = Inr r3"
    using Piano_Timeline_highlight_tick_in_range
        [of 3 "keys tln" "tl_channel_3_notes tln" tick NOTE_GREEN_LIGHT]
    by (auto simp: channel_constants_in_range)
  then show "\<exists>t3. highlight_channel_3_tick tick tln = Inr t3"
    by (cases r3) (simp add: highlight_channel_3_tick_def)
  obtain r4 where "Piano_Timeline_highlight_tick (keys tln) (tl_channel_4_notes tln) 4 tick NOTE_BROWN_LIGHT = Inr r4"
    using Piano_Timeline_highlight_tick_in_range
        [of 4 "keys tln" "tl_channel_4_notes tln" tick NOTE_BROWN_LIGHT]
    by (auto simp: channel_constants_in_range)
  then show "\<exists>t4. highlight_channel_4_tick tick tln = Inr t4"
    by (cases r4) (simp add: highlight_channel_4_tick_def)
qed

lemma Piano_Roll_highlight_tick_ok:
  "\<exists>pr1. Piano_Roll_highlight_tick t pr = Inr pr1"
proof (cases "pr_tick pr = t")
  case True
  then show ?thesis by (simp add: Piano_Roll_highlight_tick_def)
next
  case False
  obtain t1 where t1: "highlight_channel_1_tick t (piano_timeline pr) = Inr t1"
    using highlight_channel_tick_ok(1) by blast
  obtain t2 where t2: "highlight_channel_2_tick t t1 = Inr t2"
    using highlight_channel_tick_ok(2) by blast
  obtain t3 where t3: "highlight_channel_3_tick t t2 = Inr t3"
    using highlight_channel_tick_ok(3) by blast
  obtain t4 where t4: "highlight_channel_4_tick t t3 = Inr t4"
    using highlight_channel_tick_ok(4) by blast
  show ?thesis
    using False t1 t2 t3 t4 by (simp add: Piano_Roll_highlight_tick_def Let_def)
qed

text \<open>
  Claim C9. The assertion of \<^verbatim>\<open>Piano_Keys::set_channel_pitch\<close> fails exactly when the
  channel number is outside 1..4; for a number inside, the dispatch sets the pitch of
  exactly the channel of that number. The four wrappers \<^verbatim>\<open>highlight_channel_N_tick\<close> pass
  the constants 1 to 4 through \<^verbatim>\<open>Piano_Timeline::highlight_tick\<close>, so neither they nor
  \<^verbatim>\<open>Piano_Roll::highlight_tick\<close>, which calls all four, ever fail the assertion, whatever
  the timeline, the notes and the tick.
\<close>

theorem channel_number_assertion_holds:
  "(set_channel_pitch cn p oct ks = Inl AssertionFailed \<longleftrightarrow> \<not> (1 \<le>s cn \<and> cn \<le>s 4))
   \<and> (1 \<le>s cn \<and> cn \<le>s 4 \<longrightarrow>
        (cn = 1 \<and> set_channel_pitch cn p oct ks = Inr (set_channel_1_pitch p oct ks))
      \<or> (cn = 2 \<and> set_channel_pitch cn p oct ks = Inr (set_channel_2_pitch p oct ks))
      \<or> (cn = 3 \<and> set_channel_pitch cn p oct ks = Inr (set_channel_3_pitch p oct ks))
      \<or> (cn = 4 \<and> set_channel_pitch cn p oct ks = Inr (set_channel_4_pitch p oct ks)))
   \<and> (\<exists>t1. highlight_channel_1_tick tick tln = Inr t1)
   \<and> (\<exists>t2. highlight_channel_2_tick tick tln = Inr t2)
   \<and> (\<exists>t3. highlight_channel_3_tick tick tln = Inr t3)
   \<and> (\<exists>t4. highlight_channel_4_tick tick tln = Inr t4)
   \<and> (\<exists>pr1. Piano_Roll_highlight_tick tick pr = Inr pr1)"
proof -
  have a: "set_channel_pitch cn p oct ks = Inl AssertionFailed \<longleftrightarrow> \<not> (1 \<le>s cn \<and> cn \<le>s 4)"
    by (simp add: set_channel_pitch_def)
  have b: "(cn = 1 \<and> set_channel_pitch cn p oct ks = Inr (set_channel_1_pitch p oct ks))
      \<or> (cn = 2 \<and> set_channel_pitch cn p oct ks = Inr (set_channel_2_pitch p oct ks))
      \<or> (cn = 3 \<and> set_channel_pitch cn p oct ks = Inr (set_channel_3_pitch p oct ks))
      \<or> (cn = 4 \<and> set_channel_pitch cn p oct ks = Inr (set_channel_4_pitch p oct ks))"
    if "1 \<le>s cn \<and> cn \<le>s 4"
  proof -
    from that have "cn = 1 \<or> cn = 2 \<or> cn = 3 \<or> cn = 4"
      by (simp add: channel_number_cases)
    then show ?thesis
      by (auto simp: set_channel_pitch_def channel_constants_in_range)
  qed
  show ?thesis
    using a b highlight_channel_tick_ok [of tick tln] Piano_Roll_highlight_tick_ok [of tick pr]
    by blast
qed

theorem channel_number_assertion_holds_witness:
  "(1 :: int32) \<le>s 3 \<and> (3 :: int32) \<le>s 4
   \<and> set_channel_pitch 3 C_NAT 2 (Piano_Keys_init 0 21)
       = Inr (set_channel_3_pitch C_NAT 2 (Piano_Keys_init 0 21))
   \<and> set_channel_pitch 5 C_NAT 2 (Piano_Keys_init 0 21) = Inl AssertionFailed
   \<and> (\<exists>t1. highlight_channel_1_tick 5 example_timeline = Inr t1)
   \<and> (\<exists>pr1. Piano_Roll_highlight_tick 5 example_roll = Inr pr1)"
proof -
  note T = channel_number_assertion_holds
    [of 3 C_NAT 2 "Piano_Keys_init 0 21" 5 example_timeline example_roll]
  note U = channel_number_assertion_holds
    [of 5 C_NAT 2 "Piano_Keys_init 0 21" 5 example_timeline example_roll]
  have r: "(1 :: int32) \<le>s 3 \<and> (3 :: int32) \<le>s 4" by (simp add: word_sle_eq)
  have "set_channel_pitch 3 C_NAT 2 (Piano_Keys_init 0 21)
       = Inr (set_channel_3_pitch C_NAT 2 (Piano_Keys_init 0 21))"
    using T [THEN conjunct2, THEN conjunct1] r by simp
  moreover have "set_channel_pitch 5 C_NAT 2 (Piano_Keys_init 0 21) = Inl AssertionFailed"
    using U [THEN conjunct1] by (simp add: word_sle_eq)
  ultimately show ?thesis
    using r T by blast
qed

section \<open>Note boxes at cumulative ticks\<close>

lemma size_constants:
  "octave_height = 168" "note_row_height = 14" "tick_width = 3" "WHITE_KEY_WIDTH = 150"
  "(ucast NUM_OCTAVES :: int32) = 8" "(ucast NUM_NOTES_PER_OCTAVE :: int32) = 12"
  by (simp_all add: octave_height_def note_row_height_def tick_width_def WHITE_KEY_WIDTH_def
      white_key_height_def WHITE_KEY_HEIGHT_def NUM_WHITE_NOTES_def NUM_BLACK_NOTES_def
      NUM_NOTES_PER_OCTAVE_def NUM_OCTAVES_def TICK_WIDTH_def)

lemma non_rest_indices_Cons:
  "non_rest_indices (n # ns) =
     (if nv_pitch n \<noteq> REST then [0] else []) @ map Suc (non_rest_indices ns)"
proof -
  have "[0..<length (n # ns)] = 0 # map Suc [0..<length ns]"
    by (simp add: upt_conv_Cons map_Suc_upt del: upt_Suc)
  then show ?thesis
    by (simp add: non_rest_indices_def filter_map comp_def del: upt_Suc)
qed

lemma ticks_before_Cons:
  "ticks_before (n # ns) 0 = 0"
  "ticks_before (n # ns) (Suc j) = nv_length n * nv_speed n + ticks_before ns j"
  by (simp_all add: ticks_before_def)

lemma set_channel_loop_eq:
  "set_channel_loop fx fy color t0 ns channel =
     channel @ map (\<lambda>j.
       \<lparr>note_view = ns ! j, nb_tick = t0 + ticks_before ns j,
        nb_x = fx (t0 + ticks_before ns j),
        nb_y = fy (nv_pitch (ns ! j)) (nv_octave (ns ! j)),
        nb_w = nv_length (ns ! j) * nv_speed (ns ! j) * tick_width,
        nb_h = note_row_height, nb_color = color\<rparr>) (non_rest_indices ns)"
proof (induction ns arbitrary: t0 channel)
  case Nil
  show ?case by (simp add: non_rest_indices_def)
next
  case (Cons n ns)
  show ?case
    by (simp add: Cons.IH non_rest_indices_Cons ticks_before_Cons comp_def add.assoc)
qed

lemma set_channel_eq:
  "set_channel tln channel cn ns color =
     channel @ map (\<lambda>j.
       \<lparr>note_view = ns ! j, nb_tick = ticks_before ns j,
        nb_x = tl_x tln + 150 + ticks_before ns j * 3,
        nb_y = tl_y tln + (8 - nv_octave (ns ! j)) * 168
                 + (12 - pitch_to_int (nv_pitch (ns ! j))) * 14,
        nb_w = nv_length (ns ! j) * nv_speed (ns ! j) * 3,
        nb_h = 14, nb_color = color\<rparr>) (non_rest_indices ns)"
  by (simp add: set_channel_def Let_def set_channel_loop_eq size_constants)

text \<open>
  Claim C7. \<^verbatim>\<open>set_channel\<close> creates one box for each note that is not a rest, in the
  order of the sequence: the box of the note at position \<open>j\<close> stores that note, its tick
  is the sum of \<open>length * speed\<close> over all notes before position \<open>j\<close>, rests included,
  and its width is its own \<open>length * speed * tick_width\<close>. The boxes are appended to the
  channel, whose earlier content stays in front.
\<close>

theorem set_channel_cumulative_ticks:
  "map (\<lambda>b. (note_view b, nb_tick b, nb_w b)) (set_channel tln [] cn ns color)
     = map (\<lambda>j. (ns ! j, ticks_before ns j, nv_length (ns ! j) * nv_speed (ns ! j) * tick_width))
         (non_rest_indices ns)
   \<and> (\<forall>channel. take (length channel) (set_channel tln channel cn ns color) = channel
        \<and> length (set_channel tln channel cn ns color)
            = length channel + length (non_rest_indices ns))"
  by (simp add: set_channel_eq comp_def size_constants)

theorem set_channel_cumulative_ticks_witness:
  "map (\<lambda>b. (note_view b, nb_tick b, nb_w b))
     (set_channel example_timeline [] 1 example_notes NOTE_RED)
   = [(\<lparr>nv_length = 2, nv_pitch = C_NAT, nv_octave = 1, nv_speed = 3\<rparr>, 0, 18),
      (\<lparr>nv_length = 4, nv_pitch = B_NAT, nv_octave = 1, nv_speed = 1\<rparr>, 10, 12)]"
proof -
  have i: "non_rest_indices example_notes = [0, 2]"
    by (simp add: non_rest_indices_def example_notes_def upt_rec)
  have t: "ticks_before example_notes 0 = 0" "ticks_before example_notes 2 = 10"
    by (simp_all add: ticks_before_def example_notes_def)
  have n: "example_notes ! 0 = \<lparr>nv_length = 2, nv_pitch = C_NAT, nv_octave = 1, nv_speed = 3\<rparr>"
    "example_notes ! 2 = \<lparr>nv_length = 4, nv_pitch = B_NAT, nv_octave = 1, nv_speed = 1\<rparr>"
    by (simp_all add: example_notes_def)
  show ?thesis
    using set_channel_cumulative_ticks [of example_timeline 1 example_notes NOTE_RED,
        THEN conjunct1]
    by (simp add: i t n size_constants)
qed

section \<open>Tick and pitch to pixels\<close>









section \<open>Following the cursor\<close>

lemma scroll_to_fields:
  "xposition (scroll_to X Y pr) = X"
  "yposition (scroll_to X Y pr) = Y"
  "pr_w (scroll_to X Y pr) = pr_w pr"
  "pr_x (scroll_to X Y pr) = pr_x pr"
  "scrollbar_w (scroll_to X Y pr) = scrollbar_w pr"
  "tl_w (piano_timeline (scroll_to X Y pr)) = tl_w (piano_timeline pr)"
  "tl_x (piano_timeline (scroll_to X Y pr)) = tl_x (piano_timeline pr) + (xposition pr - X)"
  "pr_tick (scroll_to X Y pr) = pr_tick pr"
  "following (scroll_to X Y pr) = following pr"
  "pr_paused (scroll_to X Y pr) = pr_paused pr"
  "ticks_per_step (scroll_to X Y pr) = ticks_per_step pr"
  by (auto simp: scroll_to_def Let_def move_timeline_def)

lemma sticky_keys_fields:
  "xposition (sticky_keys pr) = xposition pr"
  "yposition (sticky_keys pr) = yposition pr"
  "pr_w (sticky_keys pr) = pr_w pr"
  "pr_x (sticky_keys pr) = pr_x pr"
  "scrollbar_w (sticky_keys pr) = scrollbar_w pr"
  "tl_w (piano_timeline (sticky_keys pr)) = tl_w (piano_timeline pr)"
  "tl_x (piano_timeline (sticky_keys pr)) = tl_x (piano_timeline pr)"
  "pr_tick (sticky_keys pr) = pr_tick pr"
  "following (sticky_keys pr) = following pr"
  "pr_paused (sticky_keys pr) = pr_paused pr"
  "ticks_per_step (sticky_keys pr) = ticks_per_step pr"
  by (simp_all add: sticky_keys_def)

lemma focus_cursor_cases:
  "focus_cursor center pr =
     (if (following pr \<and> continuous pr)
         \<or> xposition pr + pr_w pr - WHITE_KEY_WIDTH * 2 <s x_pos pr
         \<or> x_pos pr <s xposition pr
      then sticky_keys (scroll_to (scroll_target center pr) (yposition pr) pr)
      else pr)"
  by (simp add: focus_cursor_def x_pos_def scroll_target_def Let_def)

lemma focus_cursor_scroll_x_max:
  "scroll_x_max (focus_cursor center pr) = scroll_x_max pr"
  by (simp add: focus_cursor_cases scroll_x_max_def scroll_to_fields sticky_keys_fields)


lemma focus_cursor_continuous:
  assumes "following pr" "continuous pr"
  shows "xposition (focus_cursor center pr) = scroll_target center pr"
    and "tl_x (piano_timeline (focus_cursor center pr))
           = tl_x (piano_timeline pr) + (xposition pr - scroll_target center pr)"
  using assms by (simp_all add: focus_cursor_cases scroll_to_fields sticky_keys_fields)

lemma scroll_target_le: "scroll_target center pr \<le>s scroll_x_max pr"
  by (auto simp: scroll_target_def std_min_def word_sle_eq word_sless_alt)

lemma scroll_target_ge:
  assumes "0 \<le>s scroll_x_max pr"
  shows "0 \<le>s scroll_target center pr"
  using assms
  by (auto simp: scroll_target_def std_min_def std_max_def word_sle_eq word_sless_alt)

lemma highlight_channel_tick_geometry:
  "highlight_channel_1_tick tick tln = Inr t1 \<Longrightarrow> tl_w t1 = tl_w tln \<and> tl_x t1 = tl_x tln"
  "highlight_channel_2_tick tick tln = Inr t1 \<Longrightarrow> tl_w t1 = tl_w tln \<and> tl_x t1 = tl_x tln"
  "highlight_channel_3_tick tick tln = Inr t1 \<Longrightarrow> tl_w t1 = tl_w tln \<and> tl_x t1 = tl_x tln"
  "highlight_channel_4_tick tick tln = Inr t1 \<Longrightarrow> tl_w t1 = tl_w tln \<and> tl_x t1 = tl_x tln"
  by (auto simp: highlight_channel_1_tick_def highlight_channel_2_tick_def
      highlight_channel_3_tick_def highlight_channel_4_tick_def split: sum.splits prod.splits)

lemma Piano_Roll_highlight_tick_new:
  assumes "pr_tick pr \<noteq> t"
  shows "\<exists>tln. tl_w tln = tl_w (piano_timeline pr) \<and> tl_x tln = tl_x (piano_timeline pr)
     \<and> Piano_Roll_highlight_tick t pr
         = Inr (focus_cursor False (pr\<lparr>pr_tick := t, piano_timeline := tln\<rparr>))"
proof -
  obtain t1 where t1: "highlight_channel_1_tick t (piano_timeline pr) = Inr t1"
    using highlight_channel_tick_ok(1) by blast
  obtain t2 where t2: "highlight_channel_2_tick t t1 = Inr t2"
    using highlight_channel_tick_ok(2) by blast
  obtain t3 where t3: "highlight_channel_3_tick t t2 = Inr t3"
    using highlight_channel_tick_ok(3) by blast
  obtain t4 where t4: "highlight_channel_4_tick t t3 = Inr t4"
    using highlight_channel_tick_ok(4) by blast
  have "tl_w t4 = tl_w (piano_timeline pr) \<and> tl_x t4 = tl_x (piano_timeline pr)"
    using highlight_channel_tick_geometry(1) [OF t1] highlight_channel_tick_geometry(2) [OF t2]
      highlight_channel_tick_geometry(3) [OF t3] highlight_channel_tick_geometry(4) [OF t4]
    by simp
  moreover have "Piano_Roll_highlight_tick t pr
         = Inr (focus_cursor False (pr\<lparr>pr_tick := t, piano_timeline := t4\<rparr>))"
    using assms t1 t2 t3 t4 by (simp add: Piano_Roll_highlight_tick_def Let_def)
  ultimately show ?thesis by blast
qed

lemma x_pos_update [simp]:
  "x_pos (pr\<lparr>pr_tick := t, piano_timeline := tln\<rparr>) = x_pos (pr\<lparr>pr_tick := t\<rparr>)"
  "scroll_x_max (pr\<lparr>pr_tick := t\<rparr>) = scroll_x_max pr"
  by (simp_all add: x_pos_def scroll_x_max_def)

lemma example_timeline_created:
  "set_channel_1 example_notes (Piano_Timeline_init 0 21 784 1344)
   = example_timeline\<lparr>tl_w := 784\<rparr>"
  by (simp add: set_channel_1_def set_channel_def Let_def example_notes_def
      example_timeline_def Piano_Timeline_init_def size_constants)

lemma example_roll_reached:
  "start_following (set_timeline_width
       ((Piano_Roll_init 0 21 800 556 16 16)
          \<lparr>song_length := 3072, pr_channel_1_notes := example_notes,
           piano_timeline := set_channel_1 example_notes (Piano_Timeline_init 0 21 784 1344)\<rparr>))
   = example_roll"
  by code_simp

lemma example_roll_fields:
  "pr_x example_roll = 0" "pr_w example_roll = 800" "xposition example_roll = 0"
  "scrollbar_w example_roll = 16" "pr_tick example_roll = - 1"
  "following example_roll" "continuous example_roll" "\<not> pr_paused example_roll"
  "ticks_per_step example_roll = 12"
  "tl_w (piano_timeline example_roll) = 9366" "tl_x (piano_timeline example_roll) = 0"
  by (simp_all add: example_roll_def example_timeline_def)


lemma example_x_pos:
  "x_pos (example_roll\<lparr>pr_tick := 600\<rparr>) = 1800"
  "x_pos (example_roll\<lparr>pr_tick := 3071\<rparr>) = 9180"
  "x_pos (example_roll\<lparr>continuous := False, pr_tick := 7\<rparr>) = 0"
  "x_pos (example_roll\<lparr>continuous := False\<rparr>) = 0"
  by (simp_all add: x_pos_def example_roll_fields c_div_numerals size_constants)




text \<open>
  Claim C3. With continuous scrolling off, \<^verbatim>\<open>focus_cursor\<close> changes nothing when
  \<open>xposition \<le> x_pos \<le> xposition + w - 2 * WHITE_KEY_WIDTH\<close>; the scroll position
  changes only when \<open>x_pos\<close> is beyond that right margin or left of \<open>xposition\<close>; and an
  update by \<^verbatim>\<open>highlight_tick\<close> to a new tick whose \<open>x_pos\<close> is within the margins
  leaves the scroll position as it was.
\<close>

theorem follow_margin_no_scroll:
  assumes "\<not> continuous pr"
  shows "(xposition pr \<le>s x_pos pr \<and> x_pos pr \<le>s xposition pr + pr_w pr - WHITE_KEY_WIDTH * 2
            \<longrightarrow> focus_cursor center pr = pr)
     \<and> (xposition (focus_cursor center pr) \<noteq> xposition pr
            \<longrightarrow> xposition pr + pr_w pr - WHITE_KEY_WIDTH * 2 <s x_pos pr
                \<or> x_pos pr <s xposition pr)
     \<and> (\<forall>t. pr_tick pr \<noteq> t
            \<and> xposition pr \<le>s x_pos (pr\<lparr>pr_tick := t\<rparr>)
            \<and> x_pos (pr\<lparr>pr_tick := t\<rparr>) \<le>s xposition pr + pr_w pr - WHITE_KEY_WIDTH * 2
            \<longrightarrow> (\<exists>pr1. Piano_Roll_highlight_tick t pr = Inr pr1
                   \<and> xposition pr1 = xposition pr))"
proof -
  have a: "focus_cursor center pr = pr"
    if "xposition pr \<le>s x_pos pr" "x_pos pr \<le>s xposition pr + pr_w pr - WHITE_KEY_WIDTH * 2"
    using that assms by (auto simp: focus_cursor_cases word_sle_eq word_sless_alt)
  have b: "xposition pr + pr_w pr - WHITE_KEY_WIDTH * 2 <s x_pos pr \<or> x_pos pr <s xposition pr"
    if "xposition (focus_cursor center pr) \<noteq> xposition pr"
    using that assms by (auto simp: focus_cursor_cases split: if_splits)
  have c: "\<exists>pr1. Piano_Roll_highlight_tick t pr = Inr pr1 \<and> xposition pr1 = xposition pr"
    if h: "pr_tick pr \<noteq> t" "xposition pr \<le>s x_pos (pr\<lparr>pr_tick := t\<rparr>)"
      "x_pos (pr\<lparr>pr_tick := t\<rparr>) \<le>s xposition pr + pr_w pr - WHITE_KEY_WIDTH * 2" for t
  proof -
    obtain tln where res: "Piano_Roll_highlight_tick t pr
         = Inr (focus_cursor False (pr\<lparr>pr_tick := t, piano_timeline := tln\<rparr>))"
      using Piano_Roll_highlight_tick_new [OF h(1)] by blast
    let ?p = "pr\<lparr>pr_tick := t, piano_timeline := tln\<rparr>"
    have "focus_cursor False ?p = ?p"
      using assms h(2,3) by (auto simp: focus_cursor_cases word_sle_eq word_sless_alt)
    then show ?thesis using res by simp
  qed
  show ?thesis using a b c by blast
qed

theorem follow_margin_no_scroll_witness:
  "\<not> continuous (example_roll\<lparr>continuous := False\<rparr>)
   \<and> pr_tick (example_roll\<lparr>continuous := False\<rparr>) \<noteq> 7
   \<and> focus_cursor False (example_roll\<lparr>continuous := False\<rparr>)
       = example_roll\<lparr>continuous := False\<rparr>
   \<and> (\<exists>pr1. Piano_Roll_highlight_tick 7 (example_roll\<lparr>continuous := False\<rparr>) = Inr pr1
         \<and> xposition pr1 = 0)"
proof -
  let ?p = "example_roll\<lparr>continuous := False\<rparr>"
  have nc: "\<not> continuous ?p" by simp
  note T = follow_margin_no_scroll [OF nc, of False]
  have m: "xposition ?p \<le>s x_pos ?p \<and> x_pos ?p \<le>s xposition ?p + pr_w ?p - WHITE_KEY_WIDTH * 2"
    by (simp add: example_x_pos example_roll_fields size_constants word_sle_eq)
  have a: "focus_cursor False ?p = ?p"
    using T [THEN conjunct1] m by blast
  have n: "pr_tick ?p \<noteq> 7 \<and> xposition ?p \<le>s x_pos (?p\<lparr>pr_tick := 7\<rparr>)
       \<and> x_pos (?p\<lparr>pr_tick := 7\<rparr>) \<le>s xposition ?p + pr_w ?p - WHITE_KEY_WIDTH * 2"
    by (simp add: example_x_pos example_roll_fields size_constants word_sle_eq)
  have b: "\<exists>pr1. Piano_Roll_highlight_tick 7 ?p = Inr pr1 \<and> xposition pr1 = xposition ?p"
    using T [THEN conjunct2, THEN conjunct2, THEN spec, of 7] n by blast
  show ?thesis
    using a b n by (simp add: example_roll_fields)
qed

lemma set_timeline_width_scroll_x_max:
  assumes h: "0 \<le>s scrollbar_w pr" "scrollbar_w pr \<le>s pr_w pr"
  shows "0 \<le>s scroll_x_max (set_timeline_width pr)"
proof -
  let ?v = "pr_w pr - scrollbar_w pr"
  have s: "0 \<le> sint (scrollbar_w pr)" "sint (scrollbar_w pr) \<le> sint (pr_w pr)"
    using h by (simp_all add: word_sle_eq)
  have v: "sint ?v = sint (pr_w pr) - sint (scrollbar_w pr)"
    using s sint_lt [of "pr_w pr"] sint_ge [of "pr_w pr"]
    by (intro sint_sub_no_overflow) simp_all
  have v0: "0 \<le> sint ?v" using v s by simp
  have w: "sint ?v \<le> sint (tl_w (piano_timeline (set_timeline_width pr)))"
    by (auto simp: set_timeline_width_def Let_def std_max_def word_sless_alt)
  have fields: "pr_w (set_timeline_width pr) = pr_w pr"
    "scrollbar_w (set_timeline_width pr) = scrollbar_w pr"
    by (simp_all add: set_timeline_width_def Let_def)
  let ?W = "tl_w (piano_timeline (set_timeline_width pr))"
  have "sint (?W - ?v) = sint ?W - sint ?v"
    using v0 w sint_lt [of ?W] sint_ge [of ?W]
    by (intro sint_sub_no_overflow) simp_all
  then show ?thesis
    using w by (simp add: scroll_x_max_def fields word_sle_eq)
qed

lemma scroll_x_max_scrolled:
  "scroll_x_max (scroll_to X Y pr) = scroll_x_max pr"
  "scroll_x_max (sticky_keys pr) = scroll_x_max pr"
  by (simp_all add: scroll_x_max_def scroll_to_fields sticky_keys_fields)

lemma set_timeline_scroll_x_max:
  assumes "0 \<le>s sb" "sb \<le>s W"
  shows "0 \<le>s scroll_x_max (fst (set_timeline rnd i (Piano_Roll_init X Y W H sb hsb)))"
proof -
  obtain pr where pr: "fst (set_timeline rnd i (Piano_Roll_init X Y W H sb hsb))
      = set_timeline_width pr" "scrollbar_w pr = sb" "pr_w pr = W"
    by (simp add: set_timeline_def Let_def split_beta Piano_Roll_init_def)
  show ?thesis
    unfolding pr(1) using assms pr(2,3) by (intro set_timeline_width_scroll_x_max) simp_all
qed

lemma set_size_scroll_x_max:
  assumes "0 \<le>s scrollbar_w pr" "scrollbar_w pr \<le>s W" "0 \<le>s scroll_x_max pr"
  shows "0 \<le>s scroll_x_max (set_size W H pr)"
proof (cases "W \<noteq> pr_w pr \<or> H \<noteq> pr_h pr")
  case True
  let ?p = "set_timeline_width (pr\<lparr>pr_w := W, pr_h := H\<rparr>)"
  have "0 \<le>s scroll_x_max ?p"
    using assms(1,2) by (intro set_timeline_width_scroll_x_max) simp_all
  then show ?thesis
    using True by (simp add: set_size_def Let_def scroll_x_max_scrolled)
next
  case False
  then show ?thesis using assms(3) by (simp add: set_size_def)
qed

lemma focus_cursor_in_range:
  assumes "0 \<le>s scroll_x_max pr"
  shows "focus_cursor center pr = pr
         \<or> (0 \<le>s xposition (focus_cursor center pr)
            \<and> xposition (focus_cursor center pr) \<le>s scroll_x_max pr)"
  using scroll_target_ge [OF assms, of center] scroll_target_le [of center pr]
  by (simp add: focus_cursor_cases scroll_to_fields sticky_keys_fields)

lemma Piano_Roll_highlight_tick_in_range:
  assumes "0 \<le>s scroll_x_max pr"
  shows "\<exists>pr1. Piano_Roll_highlight_tick t pr = Inr pr1
     \<and> (xposition pr1 = xposition pr
        \<or> (0 \<le>s xposition pr1 \<and> xposition pr1 \<le>s scroll_x_max pr))
     \<and> scroll_x_max pr1 = scroll_x_max pr"
proof (cases "pr_tick pr = t")
  case True
  then show ?thesis by (simp add: Piano_Roll_highlight_tick_def)
next
  case False
  obtain tln where w: "tl_w tln = tl_w (piano_timeline pr)"
    and r: "Piano_Roll_highlight_tick t pr
         = Inr (focus_cursor False (pr\<lparr>pr_tick := t, piano_timeline := tln\<rparr>))"
    using Piano_Roll_highlight_tick_new [OF False] by blast
  let ?p = "pr\<lparr>pr_tick := t, piano_timeline := tln\<rparr>"
  have m: "scroll_x_max ?p = scroll_x_max pr"
    using w by (simp add: scroll_x_max_def)
  have x: "xposition ?p = xposition pr" by simp
  have "focus_cursor False ?p = ?p
         \<or> (0 \<le>s xposition (focus_cursor False ?p)
            \<and> xposition (focus_cursor False ?p) \<le>s scroll_x_max ?p)"
    using assms m by (intro focus_cursor_in_range) simp
  then have "xposition (focus_cursor False ?p) = xposition pr
         \<or> (0 \<le>s xposition (focus_cursor False ?p)
            \<and> xposition (focus_cursor False ?p) \<le>s scroll_x_max pr)"
    using m x by metis
  moreover have "scroll_x_max (focus_cursor False ?p) = scroll_x_max pr"
    using m by (simp add: focus_cursor_scroll_x_max)
  ultimately show ?thesis using r by blast
qed

text \<open>
  Claim C4. The constructor's \<^verbatim>\<open>set_timeline\<close> and every \<^verbatim>\<open>set_size\<close> leave the
  timeline at least as wide as the viewport (the scrollbar being no wider than the
  widget), so that \<open>scroll_x_max\<close> is not negative, and no tick update changes
  \<open>scroll_x_max\<close>. In such a state, for every tick and both values of \<^verbatim>\<open>center\<close>, the
  offset that \<^verbatim>\<open>focus_cursor\<close> scrolls to lies between 0 and \<open>scroll_x_max\<close>:
  \<^verbatim>\<open>focus_cursor\<close> either changes nothing or leaves the scroll position in that interval,
  and so does \<^verbatim>\<open>highlight_tick\<close> for every tick it is given.
\<close>

theorem focus_cursor_clamped:
  "(0 \<le>s sb \<and> sb \<le>s W \<longrightarrow>
      0 \<le>s scroll_x_max (fst (set_timeline rnd i (Piano_Roll_init X Y W H sb hsb))))
   \<and> (0 \<le>s scrollbar_w pr \<and> scrollbar_w pr \<le>s W \<and> 0 \<le>s scroll_x_max pr \<longrightarrow>
        0 \<le>s scroll_x_max (set_size W H pr))
   \<and> (0 \<le>s scroll_x_max pr \<longrightarrow>
        (focus_cursor center pr = pr
         \<or> (0 \<le>s xposition (focus_cursor center pr)
            \<and> xposition (focus_cursor center pr) \<le>s scroll_x_max pr))
        \<and> 0 \<le>s scroll_target center pr \<and> scroll_target center pr \<le>s scroll_x_max pr
        \<and> scroll_x_max (focus_cursor center pr) = scroll_x_max pr
        \<and> (\<exists>pr1. Piano_Roll_highlight_tick t pr = Inr pr1
             \<and> (xposition pr1 = xposition pr
                \<or> (0 \<le>s xposition pr1 \<and> xposition pr1 \<le>s scroll_x_max pr))
             \<and> scroll_x_max pr1 = scroll_x_max pr))"
  using focus_cursor_in_range [of pr center] Piano_Roll_highlight_tick_in_range [of pr t]
    set_timeline_scroll_x_max [of sb W rnd i X Y H hsb]
    set_size_scroll_x_max [of pr W H]
    scroll_target_ge [of pr center] scroll_target_le [of center pr]
    focus_cursor_scroll_x_max [of center pr]
  by blast

theorem focus_cursor_clamped_witness:
  "0 \<le>s scroll_x_max (example_roll\<lparr>pr_tick := 3071\<rparr>)
   \<and> x_pos (example_roll\<lparr>pr_tick := 3071\<rparr>) = 9180
   \<and> scroll_x_max (example_roll\<lparr>pr_tick := 3071\<rparr>) = 8582
   \<and> xposition (focus_cursor False (example_roll\<lparr>pr_tick := 3071\<rparr>)) = 8582
   \<and> 0 \<le>s xposition (focus_cursor False (example_roll\<lparr>pr_tick := 3071\<rparr>))
   \<and> xposition (focus_cursor False (example_roll\<lparr>pr_tick := 3071\<rparr>))
        \<le>s scroll_x_max (example_roll\<lparr>pr_tick := 3071\<rparr>)"
proof -
  let ?p = "example_roll\<lparr>pr_tick := 3071\<rparr>"
  have s: "scroll_x_max ?p = 8582"
    by (simp add: scroll_x_max_def example_roll_fields)
  then have s0: "0 \<le>s scroll_x_max ?p" by (simp add: word_sle_eq)
  have fc: "following ?p" "continuous ?p" by (simp_all add: example_roll_fields)
  have "scroll_target False ?p = 8582"
    unfolding scroll_target_def s
    by (simp add: example_x_pos std_min_def std_max_def word_sless_alt)
  then have x: "xposition (focus_cursor False ?p) = 8582"
    using focus_cursor_continuous(1) [OF fc, of False] by simp
  have ne: "focus_cursor False ?p \<noteq> ?p"
  proof
    assume "focus_cursor False ?p = ?p"
    then have "xposition (focus_cursor False ?p) = xposition ?p" by simp
    then show False using x by (simp add: example_roll_fields)
  qed
  note T = focus_cursor_clamped [where pr = ?p and center = False,
      THEN conjunct2, THEN conjunct2]
  have r: "0 \<le>s xposition (focus_cursor False ?p)
            \<and> xposition (focus_cursor False ?p) \<le>s scroll_x_max ?p"
    using T s0 ne by blast
  show ?thesis
    using s0 s x r by (simp add: example_x_pos)
qed

section \<open>Coalesced wakeups\<close>

lemma toggle_playback_flag:
  "sync_requested (window (toggle_playback s)) = sync_requested (window s)"
  "awake_ring (toggle_playback s) = awake_ring s"
  "in_sync_cb (toggle_playback s) = in_sync_cb s"
  by (simp_all add: toggle_playback_def Let_def start_audio_thread_def stop_audio_thread_def)

lemma stop_playback_flag:
  "sync_requested (window (stop_playback s)) = sync_requested (window s)"
  "awake_ring (stop_playback s) = awake_ring s"
  "in_sync_cb (stop_playback s) = in_sync_cb s"
  by (simp_all add: stop_playback_def Let_def stop_audio_thread_def)

lemma playback_thread_iteration_coalesced:
  assumes "coalesced s" and "playback_thread_iteration tick s = (continue, tick1, s1)"
  shows "coalesced (s1\<lparr>audio_thread := a\<rparr>)"
  using assms
  by (auto simp: playback_thread_iteration_def coalesced_def pending_wakeups_def Fl_awake_def
      Let_def split: if_splits)

lemma playback_thread_iteration_wakeup:
  assumes "playback_thread_iteration tick s0 = (continue, tick1, s1)"
  shows "(awake_ring s1 = awake_ring s0 + 1 \<and> \<not> sync_requested (window s0)
            \<and> sync_requested (window s1))
       \<or> (awake_ring s1 = awake_ring s0
            \<and> sync_requested (window s1) = sync_requested (window s0))"
  using assms
  by (auto simp: playback_thread_iteration_def Fl_awake_def Let_def split: if_splits)

lemma sync_cb_flag:
  "sync_cb mw = Inr mw1 \<Longrightarrow> \<not> sync_requested mw1"
  by (auto simp: sync_cb_def split: if_splits sum.splits)

lemma step_coalesced:
  assumes "coalesced s" and "step s e = Some s1"
  shows "coalesced s1"
proof (cases e)
  case Thread_Iteration
  then show ?thesis
    using assms playback_thread_iteration_coalesced
    by (auto split: option.splits prod.splits)
next
  case Awake_Dispatch
  then show ?thesis
    using assms by (auto simp: coalesced_def pending_wakeups_def split: if_splits)
next
  case Sync_Cb
  then show ?thesis
    using assms sync_cb_flag
    by (auto simp: coalesced_def pending_wakeups_def split: if_splits sum.splits)
next
  case Play_Pause_Cb
  then show ?thesis
    using assms
    by (auto simp: coalesced_def pending_wakeups_def toggle_playback_flag split: if_splits)
next
  case Stop_Cb
  then show ?thesis
    using assms
    by (auto simp: coalesced_def pending_wakeups_def stop_playback_flag split: if_splits)
next
  case (Speed_Slider_Cb speed)
  then show ?thesis
    using assms
    by (auto simp: coalesced_def pending_wakeups_def speed_slider_cb_def split: if_splits)
next
  case (Continuous_Cb c)
  then show ?thesis
    using assms
    by (auto simp: coalesced_def pending_wakeups_def continuous_cb_def split: if_splits)
qed

lemma steps_coalesced:
  "coalesced s \<Longrightarrow> steps s es = Some s1 \<Longrightarrow> coalesced s1"
proof (induction es arbitrary: s)
  case Nil
  then show ?case by simp
next
  case (Cons e es)
  then show ?case
    by (auto split: option.splits dest: step_coalesced)
qed

lemma example_run:
  "map_option (\<lambda>s. (awake_ring s, in_sync_cb s, sync_requested (window s)))
     (steps (System_init example_roll)
       [Play_Pause_Cb, Thread_Iteration, Thread_Iteration, Awake_Dispatch, Thread_Iteration,
        Sync_Cb, Thread_Iteration])
   = Some (1, False, True)"
  by code_simp

text \<open>
  Claim C8. An iteration of the playback thread queues a wakeup only when
  \<^verbatim>\<open>_sync_requested\<close> is false, and sets the flag in the same step; \<^verbatim>\<open>sync_cb\<close> leaves
  the flag false. Hence in every state the program reaches from its start by thread
  iterations, dispatches of queued handlers, runs of \<^verbatim>\<open>sync_cb\<close> and user callbacks, at
  most one wakeup is outstanding, and one is outstanding exactly when the flag is set.
\<close>

theorem wakeups_coalesced:
  "(\<forall>tick continue tick1 s1.
      playback_thread_iteration tick s0 = (continue, tick1, s1) \<longrightarrow>
        (awake_ring s1 = awake_ring s0 + 1 \<and> \<not> sync_requested (window s0)
           \<and> sync_requested (window s1))
      \<or> (awake_ring s1 = awake_ring s0
           \<and> sync_requested (window s1) = sync_requested (window s0)))
   \<and> (\<forall>mw1. sync_cb mw = Inr mw1 \<longrightarrow> \<not> sync_requested mw1)
   \<and> (steps (System_init pr) es = Some s \<longrightarrow>
        pending_wakeups s \<le> 1
        \<and> pending_wakeups s = (if sync_requested (window s) then 1 else 0))"
proof -
  have r: "pending_wakeups s \<le> 1
        \<and> pending_wakeups s = (if sync_requested (window s) then 1 else 0)"
    if "steps (System_init pr) es = Some s"
  proof -
    have "coalesced (System_init pr)"
      by (simp add: coalesced_def pending_wakeups_def System_init_def Main_Window_init_def)
    then have "coalesced s" using that by (rule steps_coalesced)
    then show ?thesis by (simp add: coalesced_def)
  qed
  show ?thesis
    using r playback_thread_iteration_wakeup [of _ s0] sync_cb_flag [of mw] by blast
qed

theorem wakeups_coalesced_witness:
  "\<exists>s. steps (System_init example_roll)
          [Play_Pause_Cb, Thread_Iteration, Thread_Iteration, Awake_Dispatch, Thread_Iteration,
           Sync_Cb, Thread_Iteration]
        = Some s
      \<and> sync_requested (window s) \<and> \<not> in_sync_cb s \<and> awake_ring s = 1
      \<and> pending_wakeups s = 1"
proof -
  obtain s where s: "steps (System_init example_roll)
          [Play_Pause_Cb, Thread_Iteration, Thread_Iteration, Awake_Dispatch, Thread_Iteration,
           Sync_Cb, Thread_Iteration]
        = Some s"
    and f: "sync_requested (window s)" "\<not> in_sync_cb s" "awake_ring s = 1"
    using example_run by fastforce
  note T = wakeups_coalesced [where ?s0.0 = s and mw = "window s" and pr = example_roll
      and s = s and es = "[Play_Pause_Cb, Thread_Iteration, Thread_Iteration,
        Awake_Dispatch, Thread_Iteration, Sync_Cb, Thread_Iteration]"]
  have "pending_wakeups s = 1"
    using T [THEN conjunct2, THEN conjunct2] s f(1) by simp
  then show ?thesis using s f by blast
qed

end
